theory Spec2Isabelle
  imports Main "HOL-Library.Word"
begin

unbundle bit_operations_syntax

section \<open>Host arithmetic: 32-bit integers of the source language\<close>

text \<open>
  Every bitwise operator of the source converts its operands to 32-bit integers, and the
  constructor of \<open>SquareSet\<close> stores \<open>lo | 0\<close> and \<open>hi | 0\<close>.  Both halves are therefore
  modelled as \<open>32 word\<close>; the sign of the stored number is only a reading of the same
  32 bits.  The shift operators \<open><<\<close>, \<open>>>>\<close> and \<open>>>\<close> use the shift count modulo 32.
  Squares are numbers of the host; they are modelled as \<open>int\<close>.
\<close>

type_synonym u32 = "32 word"
type_synonym square = int

definition shl32 :: "u32 \<Rightarrow> int \<Rightarrow> u32" where
  "shl32 w n = push_bit (nat (n mod 32)) w"

definition shr32 :: "u32 \<Rightarrow> int \<Rightarrow> u32" where
  "shr32 w n = drop_bit (nat (n mod 32)) w"

definition sar32 :: "u32 \<Rightarrow> int \<Rightarrow> u32" where
  "sar32 w n = signed_drop_bit (nat (n mod 32)) w"

text \<open>\<open>Math.clz32\<close>: the number of leading zero bits of a 32-bit value.\<close>

definition clz32 :: "u32 \<Rightarrow> int" where
  "clz32 w = int (length (takeWhile (\<lambda>i. \<not> bit w i) (rev [0..<32])))"

section \<open>types.ts and util.ts\<close>

datatype color = White | Black

datatype role = Pawn | Promotedpawn | Knight | Bishop | Rook | Queen | King

definition COLORS :: "color list" where
  "COLORS = [White, Black]"

definition ROLES :: "role list" where
  "ROLES = [Pawn, Promotedpawn, Knight, Bishop, Rook, Queen, King]"

record piece =
  role :: role
  color :: color
  promoted :: "bool option"

record move =
  mfrom :: square
  mto :: square
  promotion :: "role option"

definition opposite :: "color \<Rightarrow> color" where
  "opposite c = (if c = White then Black else White)"

text \<open>\<open>square >> 3\<close> and \<open>square & 0x7\<close> on a number within the 32-bit range.\<close>

definition squareRank :: "square \<Rightarrow> int" where
  "squareRank sq = sq div 8"

definition squareFile :: "square \<Rightarrow> int" where
  "squareFile sq = sq mod 8"

section \<open>squareSet.ts\<close>

definition popcnt32 :: "u32 \<Rightarrow> int" where
  "popcnt32 n0 =
     (let n1 = n0 - (shr32 n0 1 AND 0x55555555);
          n2 = (n1 AND 0x33333333) + (shr32 n1 2 AND 0x33333333)
      in sint (sar32 (((n2 + shr32 n2 4) AND 0xf0f0f0f) * 0x1010101) 24))"

definition bswap32 :: "u32 \<Rightarrow> u32" where
  "bswap32 n0 =
     (let n1 = (shr32 n0 8 AND 0x00ff00ff) OR shl32 (n0 AND 0x00ff00ff) 8
      in (shr32 n1 16 AND 0xffff) OR shl32 (n1 AND 0xffff) 16)"

definition rbit32 :: "u32 \<Rightarrow> u32" where
  "rbit32 n0 =
     (let n1 = (shr32 n0 1 AND 0x55555555) OR shl32 (n0 AND 0x55555555) 1;
          n2 = (shr32 n1 2 AND 0x33333333) OR shl32 (n1 AND 0x33333333) 2;
          n3 = (shr32 n2 4 AND 0x0f0f0f0f) OR shl32 (n2 AND 0x0f0f0f0f) 4;
          n4 = (shr32 n3 8 AND 0x00ff00ff) OR shl32 (n3 AND 0x00ff00ff) 8
      in (shr32 n4 16 AND 0x0000ffff) OR shl32 (n4 AND 0x0000ffff) 16)"

record squareSet =
  lo :: u32
  hi :: u32

definition SquareSet :: "u32 \<Rightarrow> u32 \<Rightarrow> squareSet" where
  "SquareSet l h = \<lparr> lo = l, hi = h \<rparr>"

definition fromSquare :: "square \<Rightarrow> squareSet" where
  "fromSquare sq = (if sq \<ge> 32 then SquareSet 0 (shl32 1 (sq - 32)) else SquareSet (shl32 1 sq) 0)"

definition emptyS :: squareSet where
  "emptyS = SquareSet 0 0"

definition fullS :: squareSet where
  "fullS = SquareSet 0xffffffff 0xffffffff"

definition backranks :: squareSet where
  "backranks = SquareSet 0xff 0xff000000"

definition lightSquares :: squareSet where
  "lightSquares = SquareSet 0x55aa55aa 0x55aa55aa"

definition darkSquares :: squareSet where
  "darkSquares = SquareSet 0xaa55aa55 0xaa55aa55"

definition complementS :: "squareSet \<Rightarrow> squareSet" where
  "complementS s = SquareSet (NOT (lo s)) (NOT (hi s))"

definition xorS :: "squareSet \<Rightarrow> squareSet \<Rightarrow> squareSet" where
  "xorS s other = SquareSet (lo s XOR lo other) (hi s XOR hi other)"

definition unionS :: "squareSet \<Rightarrow> squareSet \<Rightarrow> squareSet" where
  "unionS s other = SquareSet (lo s OR lo other) (hi s OR hi other)"

definition intersect :: "squareSet \<Rightarrow> squareSet \<Rightarrow> squareSet" where
  "intersect s other = SquareSet (lo s AND lo other) (hi s AND hi other)"

definition diff :: "squareSet \<Rightarrow> squareSet \<Rightarrow> squareSet" where
  "diff s other = SquareSet (lo s AND NOT (lo other)) (hi s AND NOT (hi other))"

definition isEmpty :: "squareSet \<Rightarrow> bool" where
  "isEmpty s = (lo s = 0 \<and> hi s = 0)"

definition nonEmpty :: "squareSet \<Rightarrow> bool" where
  "nonEmpty s = (lo s \<noteq> 0 \<or> hi s \<noteq> 0)"

definition intersects :: "squareSet \<Rightarrow> squareSet \<Rightarrow> bool" where
  "intersects s other = nonEmpty (intersect s other)"

definition isDisjoint :: "squareSet \<Rightarrow> squareSet \<Rightarrow> bool" where
  "isDisjoint s other = isEmpty (intersect s other)"

definition shr64 :: "squareSet \<Rightarrow> int \<Rightarrow> squareSet" where
  "shr64 s shift =
     (if shift \<ge> 64 then emptyS
      else if shift \<ge> 32 then SquareSet (shr32 (hi s) (shift - 32)) 0
      else if shift > 0 then
        SquareSet (shr32 (lo s) shift XOR shl32 (hi s) (32 - shift)) (shr32 (hi s) shift)
      else s)"

definition shl64 :: "squareSet \<Rightarrow> int \<Rightarrow> squareSet" where
  "shl64 s shift =
     (if shift \<ge> 64 then emptyS
      else if shift \<ge> 32 then SquareSet 0 (shl32 (lo s) (shift - 32))
      else if shift > 0 then
        SquareSet (shl32 (lo s) shift) (shl32 (hi s) shift XOR shr32 (lo s) (32 - shift))
      else s)"

definition fromRank :: "int \<Rightarrow> squareSet" where
  "fromRank rank = shl64 (SquareSet 0xff 0) (8 * rank)"

definition fromFile :: "int \<Rightarrow> squareSet" where
  "fromFile file = SquareSet (shl32 0x01010101 file) (shl32 0x01010101 file)"

definition bswap64 :: "squareSet \<Rightarrow> squareSet" where
  "bswap64 s = SquareSet (bswap32 (hi s)) (bswap32 (lo s))"

definition rbit64 :: "squareSet \<Rightarrow> squareSet" where
  "rbit64 s = SquareSet (rbit32 (hi s)) (rbit32 (lo s))"

definition equals :: "squareSet \<Rightarrow> squareSet \<Rightarrow> bool" where
  "equals s other = (lo s = lo other \<and> hi s = hi other)"

definition sizeS :: "squareSet \<Rightarrow> int" where
  "sizeS s = popcnt32 (lo s) + popcnt32 (hi s)"

definition has :: "squareSet \<Rightarrow> square \<Rightarrow> bool" where
  "has s sq = (if sq \<ge> 32 then hi s AND shl32 1 (sq - 32) \<noteq> 0 else lo s AND shl32 1 sq \<noteq> 0)"

definition withSq :: "squareSet \<Rightarrow> square \<Rightarrow> squareSet" where
  "withSq s sq =
     (if sq \<ge> 32 then SquareSet (lo s) (hi s OR shl32 1 (sq - 32))
      else SquareSet (lo s OR shl32 1 sq) (hi s))"

definition without :: "squareSet \<Rightarrow> square \<Rightarrow> squareSet" where
  "without s sq =
     (if sq \<ge> 32 then SquareSet (lo s) (hi s AND NOT (shl32 1 (sq - 32)))
      else SquareSet (lo s AND NOT (shl32 1 sq)) (hi s))"

definition lastS :: "squareSet \<Rightarrow> square option" where
  "lastS s =
     (if hi s \<noteq> 0 then Some (63 - clz32 (hi s))
      else if lo s \<noteq> 0 then Some (31 - clz32 (lo s))
      else None)"

definition firstS :: "squareSet \<Rightarrow> square option" where
  "firstS s =
     (if lo s \<noteq> 0 then Some (31 - clz32 (lo s AND - lo s))
      else if hi s \<noteq> 0 then Some (63 - clz32 (hi s AND - hi s))
      else None)"

definition moreThanOne :: "squareSet \<Rightarrow> bool" where
  "moreThanOne s =
     ((hi s \<noteq> 0 \<and> lo s \<noteq> 0) \<or> lo s AND (lo s - 1) \<noteq> 0 \<or> hi s AND (hi s - 1) \<noteq> 0)"

definition singleSquare :: "squareSet \<Rightarrow> square option" where
  "singleSquare s = (if moreThanOne s then None else lastS s)"

text \<open>
  The iterator: each call of \<open>next\<close> yields the index of the lowest set bit of \<open>lo\<close>
  (then of \<open>hi\<close>, plus 32) and clears that bit.  One half has 32 bits and every step clears
  one, so 32 steps per half exhaust it; the step count is the fuel of \<open>iter32\<close>.
\<close>

fun iter32 :: "nat \<Rightarrow> u32 \<Rightarrow> int list" where
  "iter32 0 w = []"
| "iter32 (Suc k) w =
     (if w = 0 then []
      else let idx = 31 - clz32 (w AND - w) in idx # iter32 k (w XOR shl32 1 idx))"

definition iterate :: "squareSet \<Rightarrow> square list" where
  "iterate s = iter32 32 (lo s) @ map (\<lambda>idx. 32 + idx) (iter32 32 (hi s))"

text \<open>
  \<open>minus64\<close>: the difference \<open>this.lo - other.lo\<close> is an exact number of the host
  (no truncation yet); \<open>&\<close> and \<open>>>>\<close> then read it modulo \<open>2^32\<close>.  The sum of the three
  terms is again exact, and \<open>>>> 31\<close> reads it modulo \<open>2^32\<close> before shifting.
\<close>

definition minus64_carry :: "u32 \<Rightarrow> u32 \<Rightarrow> u32" where
  "minus64_carry l ol =
     word_of_int (((uint (l AND ol AND 1) + uint (shr32 ol 1) + uint (shr32 l 1)) mod 2 ^ 32) div 2 ^ 31)"

definition minus64 :: "squareSet \<Rightarrow> squareSet \<Rightarrow> squareSet" where
  "minus64 this other =
     (let l = word_of_int (uint (lo this) - uint (lo other)) :: u32;
          c = minus64_carry l (lo other)
      in SquareSet l (hi this - (hi other + c)))"

text \<open>The unsigned 64-bit reading of a square set.\<close>

definition val64 :: "squareSet \<Rightarrow> int" where
  "val64 s = uint (lo s) + 2 ^ 32 * uint (hi s)"

section \<open>attacks.ts\<close>

text \<open>
  The only run-time failure of the code under study is the \<open>TypeError\<close> of the host: a
  method is called on \<open>undefined\<close>, or a method that the receiver does not have is called.
\<close>

datatype error = TypeError

definition computeRange :: "square \<Rightarrow> int list \<Rightarrow> squareSet" where
  "computeRange sq deltas =
     fold (\<lambda>delta rng.
             let sq' = sq + delta in
             if 0 \<le> sq' \<and> sq' < 64 \<and> \<bar>squareFile sq - squareFile sq'\<bar> \<le> 2
             then withSq rng sq' else rng)
          deltas emptyS"

text \<open>
  \<open>tabulate\<close> fills a table for the squares 0 to 63 with the values of a pure function;
  a table read is modelled by the function itself.  Outside 0..63 the source reads
  \<open>undefined\<close> from the table; the functions below are only meant for squares of the board.
\<close>

definition kingAttacks :: "square \<Rightarrow> squareSet" where
  "kingAttacks sq = computeRange sq [-9, -8, -7, -1, 1, 7, 8, 9]"

definition queenAttacks :: "square \<Rightarrow> squareSet" where
  "queenAttacks sq = computeRange sq [-9, -7, 7, 9]"

definition knightAttacks :: "square \<Rightarrow> squareSet" where
  "knightAttacks sq = computeRange sq [-17, -15, -10, -6, 6, 10, 15, 17]"

definition bishopAttacks :: "color \<Rightarrow> square \<Rightarrow> squareSet" where
  "bishopAttacks c sq =
     (case c of White \<Rightarrow> computeRange sq [-7, -9, 7, 8, 9]
              | Black \<Rightarrow> computeRange sq [-7, -8, -9, 7, 9])"

definition pawnAttacks :: "color \<Rightarrow> square \<Rightarrow> squareSet" where
  "pawnAttacks c sq =
     (case c of White \<Rightarrow> computeRange sq [7, 9]
              | Black \<Rightarrow> computeRange sq [-7, -9])"

definition FILE_RANGE :: "square \<Rightarrow> squareSet" where
  "FILE_RANGE sq = without (fromFile (squareFile sq)) sq"

definition RANK_RANGE :: "square \<Rightarrow> squareSet" where
  "RANK_RANGE sq = without (fromRank (squareRank sq)) sq"

definition hyperbola :: "squareSet \<Rightarrow> squareSet \<Rightarrow> squareSet \<Rightarrow> squareSet" where
  "hyperbola bit' rng occupied =
     (let forward = intersect occupied rng;
          reverse = bswap64 forward;
          forward' = minus64 forward bit';
          reverse' = minus64 reverse (bswap64 bit')
      in intersect (xorS forward' (bswap64 reverse')) rng)"

definition fileAttacks :: "square \<Rightarrow> squareSet \<Rightarrow> squareSet" where
  "fileAttacks sq occupied = hyperbola (fromSquare sq) (FILE_RANGE sq) occupied"

definition rankAttacks :: "square \<Rightarrow> squareSet \<Rightarrow> squareSet" where
  "rankAttacks sq occupied =
     (let rng = RANK_RANGE sq;
          forward = intersect occupied rng;
          reverse = rbit64 forward;
          forward' = minus64 forward (fromSquare sq);
          reverse' = minus64 reverse (fromSquare (63 - sq))
      in intersect (xorS forward' (rbit64 reverse')) rng)"

definition rookAttacks :: "square \<Rightarrow> squareSet \<Rightarrow> squareSet" where
  "rookAttacks sq occupied = xorS (fileAttacks sq occupied) (rankAttacks sq occupied)"

definition attacks :: "piece \<Rightarrow> square \<Rightarrow> squareSet \<Rightarrow> squareSet" where
  "attacks pc sq occupied =
     (case role pc of
        Pawn \<Rightarrow> pawnAttacks (color pc) sq
      | Knight \<Rightarrow> knightAttacks sq
      | Bishop \<Rightarrow> bishopAttacks (color pc) sq
      | Rook \<Rightarrow> rookAttacks sq occupied
      | Queen \<Rightarrow> queenAttacks sq
      | Promotedpawn \<Rightarrow> queenAttacks sq
      | King \<Rightarrow> kingAttacks sq)"

definition ray :: "square \<Rightarrow> square \<Rightarrow> squareSet" where
  "ray a b =
     (let other = fromSquare b in
      if intersects (RANK_RANGE a) other then withSq (RANK_RANGE a) a
      else if intersects (FILE_RANGE a) other then withSq (FILE_RANGE a) a
      else emptyS)"

text \<open>
  \<open>between\<close> computes \<open>ray(a, b).intersect(full.shl64(a).xor(full.shl64(b)))\<close> and calls
  \<open>withoutFirst\<close> on it.  The class \<open>SquareSet\<close> has no method of that name, so the call
  raises \<open>TypeError\<close> whatever the receiver is: \<open>between\<close> never returns a set.
\<close>

definition between :: "square \<Rightarrow> square \<Rightarrow> error + squareSet" where
  "between a b =
     (let receiver = intersect (ray a b) (xorS (shl64 fullS a) (shl64 fullS b))
      in Inl TypeError)"

section \<open>board.ts\<close>

text \<open>
  The constructor of \<open>Board\<close> assigns no field.  \<open>Board.empty\<close> assigns every set through
  \<open>clear\<close>; \<open>Board.default\<close> assigns through \<open>reset\<close>, which has no assignment to
  \<open>promotedpawn\<close>.  On the boards that the two factories build, \<open>promotedpawn\<close> is thus the
  one field that may hold \<open>undefined\<close> (\<open>None\<close>).
\<close>

record board =
  occupied :: squareSet
  white :: squareSet
  black :: squareSet
  pawn :: squareSet
  promotedpawn :: "squareSet option"
  knight :: squareSet
  bishop :: squareSet
  rook :: squareSet
  queen :: squareSet
  king :: squareSet

definition byColor :: "board \<Rightarrow> color \<Rightarrow> squareSet" where
  "byColor b c = (case c of White \<Rightarrow> white b | Black \<Rightarrow> black b)"

definition setColor :: "board \<Rightarrow> color \<Rightarrow> squareSet \<Rightarrow> board" where
  "setColor b c s = (case c of White \<Rightarrow> b\<lparr>white := s\<rparr> | Black \<Rightarrow> b\<lparr>black := s\<rparr>)"

definition byRole :: "board \<Rightarrow> role \<Rightarrow> squareSet option" where
  "byRole b r =
     (case r of Pawn \<Rightarrow> Some (pawn b) | Promotedpawn \<Rightarrow> promotedpawn b | Knight \<Rightarrow> Some (knight b)
      | Bishop \<Rightarrow> Some (bishop b) | Rook \<Rightarrow> Some (rook b) | Queen \<Rightarrow> Some (queen b)
      | King \<Rightarrow> Some (king b))"

definition setRole :: "board \<Rightarrow> role \<Rightarrow> squareSet \<Rightarrow> board" where
  "setRole b r s =
     (case r of Pawn \<Rightarrow> b\<lparr>pawn := s\<rparr> | Promotedpawn \<Rightarrow> b\<lparr>promotedpawn := Some s\<rparr>
      | Knight \<Rightarrow> b\<lparr>knight := s\<rparr> | Bishop \<Rightarrow> b\<lparr>bishop := s\<rparr> | Rook \<Rightarrow> b\<lparr>rook := s\<rparr>
      | Queen \<Rightarrow> b\<lparr>queen := s\<rparr> | King \<Rightarrow> b\<lparr>king := s\<rparr>)"

text \<open>\<open>Board.default\<close>: a new board after \<open>reset\<close>.\<close>

definition Board_default :: board where
  "Board_default =
     \<lparr> occupied = SquareSet 0xffff 0xffff0000,
       white = SquareSet 0xffff 0,
       black = SquareSet 0 0xffff0000,
       pawn = SquareSet 0xff00 0x00ff0000,
       promotedpawn = None,
       knight = SquareSet 0x42 0x42000000,
       bishop = SquareSet 0x24 0x24000000,
       rook = SquareSet 0x81 0x81000000,
       queen = SquareSet 0x8 0x08000000,
       king = SquareSet 0x10 0x10000000 \<rparr>"

text \<open>\<open>Board.empty\<close>: a new board after \<open>clear\<close>.\<close>

definition Board_empty :: board where
  "Board_empty =
     \<lparr> occupied = emptyS, white = emptyS, black = emptyS, pawn = emptyS,
       promotedpawn = Some emptyS, knight = emptyS, bishop = emptyS, rook = emptyS,
       queen = emptyS, king = emptyS \<rparr>"

text \<open>\<open>clone\<close> copies the ten fields; square sets are immutable values.\<close>

definition clone :: "board \<Rightarrow> board" where
  "clone b =
     \<lparr> occupied = occupied b, white = white b, black = black b, pawn = pawn b,
       promotedpawn = promotedpawn b, knight = knight b, bishop = bishop b, rook = rook b,
       queen = queen b, king = king b \<rparr>"

definition getColor :: "board \<Rightarrow> square \<Rightarrow> color option" where
  "getColor b sq =
     (if has (white b) sq then Some White
      else if has (black b) sq then Some Black
      else None)"

fun getRole_loop :: "board \<Rightarrow> square \<Rightarrow> role list \<Rightarrow> error + role option" where
  "getRole_loop b sq [] = Inr None"
| "getRole_loop b sq (r # rs) =
     (case byRole b r of
        None \<Rightarrow> Inl TypeError
      | Some s \<Rightarrow> if has s sq then Inr (Some r) else getRole_loop b sq rs)"

definition getRole :: "board \<Rightarrow> square \<Rightarrow> error + role option" where
  "getRole b sq = getRole_loop b sq ROLES"

text \<open>
  \<open>get\<close> asserts with \<open>!\<close> that a square with a color has a role.  Where the assertion
  fails the source goes on with a piece whose role is \<open>undefined\<close>, on which \<open>take\<close> and
  \<open>set\<close> raise \<open>TypeError\<close>; the model raises it at the assertion.
\<close>

definition get :: "board \<Rightarrow> square \<Rightarrow> error + piece option" where
  "get b sq =
     (case getColor b sq of
        None \<Rightarrow> Inr None
      | Some c \<Rightarrow>
          (case getRole b sq of
             Inl e \<Rightarrow> Inl e
           | Inr None \<Rightarrow> Inl TypeError
           | Inr (Some r) \<Rightarrow> Inr (Some \<lparr> role = r, color = c, promoted = None \<rparr>)))"

text \<open>
  \<open>take\<close> and \<open>set\<close> mutate the board and return the previous piece: the model returns the
  piece together with the board after the call.
\<close>

definition board_take :: "board \<Rightarrow> square \<Rightarrow> error + (piece option \<times> board)" where
  "board_take b sq =
     (case get b sq of
        Inl e \<Rightarrow> Inl e
      | Inr None \<Rightarrow> Inr (None, b)
      | Inr (Some pc) \<Rightarrow>
          (let b1 = b\<lparr>occupied := without (occupied b) sq\<rparr>;
               b2 = setColor b1 (color pc) (without (byColor b1 (color pc)) sq)
           in case byRole b2 (role pc) of
                None \<Rightarrow> Inl TypeError
              | Some rs \<Rightarrow> Inr (Some pc, setRole b2 (role pc) (without rs sq))))"

definition board_set :: "board \<Rightarrow> square \<Rightarrow> piece \<Rightarrow> error + (piece option \<times> board)" where
  "board_set b sq pc =
     (case board_take b sq of
        Inl e \<Rightarrow> Inl e
      | Inr (old, b0) \<Rightarrow>
          (let b1 = b0\<lparr>occupied := withSq (occupied b0) sq\<rparr>;
               b2 = setColor b1 (color pc) (withSq (byColor b1 (color pc)) sq)
           in case byRole b2 (role pc) of
                None \<Rightarrow> Inl TypeError
              | Some rs \<Rightarrow> Inr (old, setRole b2 (role pc) (withSq rs sq))))"

text \<open>\<open>pieces(color, 'king').singleSquare()\<close>; the king set is always assigned.\<close>

definition kingOf :: "board \<Rightarrow> color \<Rightarrow> square option" where
  "kingOf b c = singleSquare (intersect (byColor b c) (king b))"

fun rolesEqual :: "board \<Rightarrow> board \<Rightarrow> role list \<Rightarrow> error + bool" where
  "rolesEqual l r [] = Inr True"
| "rolesEqual l r (x # xs) =
     (case (byRole l x, byRole r x) of
        (Some a, Some b) \<Rightarrow> if equals a b then rolesEqual l r xs else Inr False
      | _ \<Rightarrow> Inl TypeError)"

definition boardEquals :: "board \<Rightarrow> board \<Rightarrow> error + bool" where
  "boardEquals l r = (if equals (white l) (white r) then rolesEqual l r ROLES else Inr False)"

section \<open>The position data of setup.ts\<close>

text \<open>
  Modelled from the spec: the declarations of \<open>RemainingChecks\<close> and \<open>Setup\<close> (setup.ts) are
  not among the sources.  The specification describes the remaining checks as an optional
  counter per color, and the externally supplied position data as board, turn, optional
  remaining-checks counters, halfmove clock and fullmove number; the fields are those
  that \<open>toSetup\<close> writes and \<open>setupUnchecked\<close> reads.
\<close>

record remainingChecks =
  rc_white :: int
  rc_black :: int

record setupData =
  s_board :: board
  s_turn :: color
  s_remainingChecks :: "remainingChecks option"
  s_halfmoves :: int
  s_fullmoves :: int

section \<open>makruk.ts\<close>

datatype illegalSetup = Empty | OppositeCheck | PawnsOnBackrank | Kings | Variant

definition attacksTo :: "square \<Rightarrow> color \<Rightarrow> board \<Rightarrow> squareSet \<Rightarrow> squareSet" where
  "attacksTo sq attacker b occ =
     intersect (byColor b attacker)
       (unionS (unionS (unionS (unionS (unionS
          (rookAttacks sq occ)
          (intersect (bishopAttacks (opposite attacker) sq) (bishop b)))
          (intersect (knightAttacks sq) (knight b)))
          (intersect (kingAttacks sq) (king b)))
          (intersect (queenAttacks sq) (king b)))
          (intersect (pawnAttacks (opposite attacker) sq) (pawn b)))"

record contextData =
  ctx_king :: "square option"
  blockers :: squareSet
  checkers :: squareSet
  variantEnd :: bool
  mustCapture :: bool

record position =
  board :: board
  turn :: color
  remainingChecks :: "remainingChecks option"
  halfmoves :: int
  fullmoves :: int

text \<open>\<open>Makruk.default\<close>: a new position after \<open>reset\<close>.\<close>

definition Makruk_default :: position where
  "Makruk_default =
     \<lparr> board = Board_default, turn = White, remainingChecks = None, halfmoves = 0,
       fullmoves = 1 \<rparr>"

definition setupUnchecked :: "setupData \<Rightarrow> position" where
  "setupUnchecked s =
     \<lparr> board = clone (s_board s), turn = s_turn s, remainingChecks = None,
       halfmoves = s_halfmoves s, fullmoves = s_fullmoves s \<rparr>"

definition kingAttackers :: "position \<Rightarrow> square \<Rightarrow> color \<Rightarrow> squareSet \<Rightarrow> squareSet" where
  "kingAttackers p sq attacker occ = attacksTo sq attacker (board p) occ"

definition isVariantEnd :: "position \<Rightarrow> bool" where
  "isVariantEnd p = False"

text \<open>
  The loop of \<open>ctx\<close> over the snipers: each round calls \<open>between\<close>, whose \<open>TypeError\<close>
  ends the loop and \<open>ctx\<close>.
\<close>

fun ctx_loop :: "board \<Rightarrow> square \<Rightarrow> square list \<Rightarrow> squareSet \<Rightarrow> error + squareSet" where
  "ctx_loop bd k [] acc = Inr acc"
| "ctx_loop bd k (sniper # rest) acc =
     (case between k sniper of
        Inl e \<Rightarrow> Inl e
      | Inr bt \<Rightarrow>
          (let b = intersect bt (occupied bd) in
           ctx_loop bd k rest (if \<not> moreThanOne b then unionS acc b else acc)))"

definition ctx :: "position \<Rightarrow> error + contextData" where
  "ctx p =
     (let ve = isVariantEnd p in
      case kingOf (board p) (turn p) of
        None \<Rightarrow>
          Inr \<lparr> ctx_king = None, blockers = emptyS, checkers = emptyS, variantEnd = ve,
                mustCapture = False \<rparr>
      | Some k \<Rightarrow>
          (let snipers = intersect (rookAttacks k emptyS) (byColor (board p) (opposite (turn p)))
           in case ctx_loop (board p) k (iterate snipers) emptyS of
                Inl e \<Rightarrow> Inl e
              | Inr bl \<Rightarrow>
                  (let ch = kingAttackers p k (opposite (turn p)) (occupied (board p))
                   in Inr \<lparr> ctx_king = Some k, blockers = bl, checkers = ch, variantEnd = ve,
                            mustCapture = False \<rparr>)))"

definition validate :: "position \<Rightarrow> illegalSetup + unit" where
  "validate p =
     (if isEmpty (occupied (board p)) then Inl Empty
      else if sizeS (king (board p)) \<noteq> 2 then Inl Kings
      else if kingOf (board p) (turn p) = None then Inl Kings
      else case kingOf (board p) (opposite (turn p)) of
             None \<Rightarrow> Inl Kings
           | Some otherKing \<Rightarrow>
               if nonEmpty (kingAttackers p otherKing (turn p) (occupied (board p)))
               then Inl OppositeCheck
               else if intersects backranks (pawn (board p)) then Inl PawnsOnBackrank
               else Inr ())"

text \<open>The pseudo-legal destinations that \<open>dests\<close> computes first, by role.\<close>

definition pseudoByRole :: "position \<Rightarrow> square \<Rightarrow> piece \<Rightarrow> squareSet" where
  "pseudoByRole p sq pc =
     (if role pc = Pawn then
        (let pseudo = intersect (pawnAttacks (turn p) sq) (byColor (board p) (opposite (turn p)));
             delta = (if turn p = White then 8 else - 8);
             step = sq + delta
         in if 0 \<le> step \<and> step < 64 \<and> \<not> has (occupied (board p)) step then
              (let pseudo1 = withSq pseudo step;
                   canDoubleStep = (if turn p = White then sq < 16 else sq \<ge> 64 - 16);
                   doubleStep = step + delta
               in if canDoubleStep \<and> \<not> has (occupied (board p)) doubleStep
                  then withSq pseudo1 doubleStep else pseudo1)
            else pseudo)
      else if role pc = Bishop then bishopAttacks (turn p) sq
      else if role pc = Knight then knightAttacks sq
      else if role pc = Rook then rookAttacks sq (occupied (board p))
      else if role pc = Queen then queenAttacks sq
      else kingAttacks sq)"

text \<open>
  An optional context argument is \<open>None\<close> when the caller leaves it out:
  \<open>ctx = ctx || this.ctx()\<close>.
\<close>

definition ctxOr :: "position \<Rightarrow> contextData option \<Rightarrow> error + contextData" where
  "ctxOr p copt = (case copt of None \<Rightarrow> ctx p | Some c \<Rightarrow> Inr c)"

definition dests :: "position \<Rightarrow> square \<Rightarrow> contextData option \<Rightarrow> error + squareSet" where
  "dests p sq copt =
     (case ctxOr p copt of
        Inl e \<Rightarrow> Inl e
      | Inr c \<Rightarrow>
      if variantEnd c then Inr emptyS
      else
      case get (board p) sq of
        Inl e \<Rightarrow> Inl e
      | Inr None \<Rightarrow> Inr emptyS
      | Inr (Some pc) \<Rightarrow>
          if color pc \<noteq> turn p then Inr emptyS
          else
            (let pseudo = diff (pseudoByRole p sq pc) (byColor (board p) (turn p)) in
             case ctx_king c of
               None \<Rightarrow> Inr pseudo
             | Some k \<Rightarrow>
                 (let pseudo1 =
                        (if role pc = King then
                           (let occ = without (occupied (board p)) sq in
                            fold (\<lambda>to acc.
                                    if nonEmpty (kingAttackers p to (opposite (turn p)) occ)
                                    then without acc to else acc)
                                 (iterate pseudo) pseudo)
                         else pseudo)
                  in if nonEmpty (checkers c) then
                       (case singleSquare (checkers c) of
                          None \<Rightarrow> Inr emptyS
                        | Some checker \<Rightarrow>
                            (case between checker k of
                               Inl e \<Rightarrow> Inl e
                             | Inr bt \<Rightarrow>
                                 (let pseudo2 = intersect pseudo1 (withSq bt checker)
                                  in Inr (if has (blockers c) sq then intersect pseudo2 (ray sq k)
                                          else pseudo2))))
                     else Inr (if has (blockers c) sq then intersect pseudo1 (ray sq k)
                               else pseudo1))))"

definition hasInsufficientMaterial :: "position \<Rightarrow> color \<Rightarrow> bool" where
  "hasInsufficientMaterial p c =
     (let b = board p in
      if nonEmpty (intersect (byColor b c) (pawn b)) then False
      else if intersects (byColor b c) (knight b) then
        sizeS (byColor b c) \<le> 2 \<and> isEmpty (diff (diff (byColor b (opposite c)) (king b)) (queen b))
      else if intersects (byColor b c) (bishop b) then
        (let sameColor = (\<not> intersects (bishop b) darkSquares \<or> \<not> intersects (bishop b) lightSquares)
         in sameColor \<and> isEmpty (pawn b) \<and> isEmpty (knight b))
      else True)"

text \<open>\<open>remainingChecks?.clone()\<close> copies the two counters.\<close>

definition toSetup :: "position \<Rightarrow> setupData" where
  "toSetup p =
     \<lparr> s_board = clone (board p), s_turn = turn p,
       s_remainingChecks = remainingChecks p,
       s_halfmoves = min (halfmoves p) 150,
       s_fullmoves = min (max (fullmoves p) 1) 9999 \<rparr>"

definition isInsufficientMaterial :: "position \<Rightarrow> bool" where
  "isInsufficientMaterial p = list_all (hasInsufficientMaterial p) COLORS"

fun hasDests_loop :: "position \<Rightarrow> contextData \<Rightarrow> square list \<Rightarrow> error + bool" where
  "hasDests_loop p c [] = Inr False"
| "hasDests_loop p c (sq # sqs) =
     (case dests p sq (Some c) of
        Inl e \<Rightarrow> Inl e
      | Inr d \<Rightarrow> if nonEmpty d then Inr True else hasDests_loop p c sqs)"

definition hasDests :: "position \<Rightarrow> contextData option \<Rightarrow> error + bool" where
  "hasDests p copt =
     (case ctxOr p copt of
        Inl e \<Rightarrow> Inl e
      | Inr c \<Rightarrow> hasDests_loop p c (iterate (byColor (board p) (turn p))))"

definition isLegal :: "position \<Rightarrow> move \<Rightarrow> contextData option \<Rightarrow> error + bool" where
  "isLegal p m copt =
     (if promotion m = Some Pawn then Inr False
      else if (promotion m \<noteq> None) \<noteq> (has (pawn (board p)) (mfrom m) \<and> has backranks (mto m))
      then Inr False
      else case dests p (mfrom m) copt of
             Inl e \<Rightarrow> Inl e
           | Inr d \<Rightarrow> Inr (has d (mto m)))"

definition isCheck :: "position \<Rightarrow> bool" where
  "isCheck p =
     (case kingOf (board p) (turn p) of
        None \<Rightarrow> False
      | Some k \<Rightarrow> nonEmpty (kingAttackers p k (opposite (turn p)) (occupied (board p))))"

definition isCheckmate :: "position \<Rightarrow> contextData option \<Rightarrow> error + bool" where
  "isCheckmate p copt =
     (case ctxOr p copt of
        Inl e \<Rightarrow> Inl e
      | Inr c \<Rightarrow>
          if \<not> variantEnd c \<and> nonEmpty (checkers c) then
            (case hasDests p (Some c) of Inl e \<Rightarrow> Inl e | Inr h \<Rightarrow> Inr (\<not> h))
          else Inr False)"

definition decChecks :: "remainingChecks \<Rightarrow> color \<Rightarrow> remainingChecks" where
  "decChecks rc c =
     (case c of White \<Rightarrow> rc\<lparr>rc_white := max (rc_white rc - 1) 0\<rparr>
              | Black \<Rightarrow> rc\<lparr>rc_black := max (rc_black rc - 1) 0\<rparr>)"

text \<open>
  \<open>play\<close> mutates the position in place; the model returns the position after the call,
  or the \<open>TypeError\<close> that a board operation raised on the way.
\<close>

definition play :: "position \<Rightarrow> move \<Rightarrow> error + position" where
  "play p m =
     (let t = turn p;
          p1 = p\<lparr>halfmoves := halfmoves p + 1\<rparr>;
          p2 = (if t = Black then p1\<lparr>fullmoves := fullmoves p1 + 1\<rparr> else p1);
          p3 = p2\<lparr>turn := opposite t\<rparr>
      in case board_take (board p3) (mfrom m) of
           Inl e \<Rightarrow> Inl e
         | Inr (None, b1) \<Rightarrow> Inr (p3\<lparr>board := b1\<rparr>)
         | Inr (Some pc, b1) \<Rightarrow>
             (let p4 = p3\<lparr>board := b1\<rparr>;
                  p5 = (if role pc = Pawn then p4\<lparr>halfmoves := 0\<rparr> else p4);
                  pc' = (if role pc = Pawn then
                           (case promotion m of
                              None \<Rightarrow> pc
                            | Some r \<Rightarrow> pc\<lparr>role := r, promoted := Some True\<rparr>)
                         else pc)
              in case board_set (board p5) (mto m) pc' of
                   Inl e \<Rightarrow> Inl e
                 | Inr (capture, b2) \<Rightarrow>
                     (let p6 = p5\<lparr>board := b2\<rparr>;
                          p7 = (if capture \<noteq> None then p6\<lparr>halfmoves := 0\<rparr> else p6)
                      in Inr (case remainingChecks p7 of
                                None \<Rightarrow> p7
                              | Some rc \<Rightarrow>
                                  if isCheck p7 then p7\<lparr>remainingChecks := Some (decChecks rc t)\<rparr>
                                  else p7))))"

definition fromSetup :: "setupData \<Rightarrow> illegalSetup + position" where
  "fromSetup s =
     (let pos = setupUnchecked s in
      case validate pos of Inl e \<Rightarrow> Inl e | Inr _ \<Rightarrow> Inr pos)"

section \<open>Predicates of the specification\<close>

subsection \<open>Members of a square set\<close>

text \<open>
  The bit that \<open>has\<close>, \<open>with\<close> and \<open>without\<close> address for a square: the shift count is
  taken modulo 32, so a number outside 0..63 addresses the bit of a square of the board.
\<close>

definition eff :: "square \<Rightarrow> nat" where
  "eff sq = (if sq \<ge> 32 then 32 + nat ((sq - 32) mod 32) else nat (sq mod 32))"

definition sqbit :: "squareSet \<Rightarrow> nat \<Rightarrow> bool" where
  "sqbit s i = (if i \<ge> 32 then bit (hi s) (i - 32) else bit (lo s) i)"

subsection \<open>The board invariant\<close>

text \<open>
  The invariant of the specification: every role set is assigned; \<open>occupied\<close> is the union
  of the two color sets and the union of the seven role sets; the color sets are disjoint
  and the role sets are pairwise disjoint; every occupied square is in exactly one color
  set and exactly one role set.
\<close>

definition board_invariant :: "board \<Rightarrow> bool" where
  "board_invariant b =
     ((\<forall>r. byRole b r \<noteq> None)
      \<and> occupied b = unionS (white b) (black b)
      \<and> (\<exists>pp. promotedpawn b = Some pp
            \<and> occupied b = unionS (pawn b) (unionS pp (unionS (knight b) (unionS (bishop b)
                 (unionS (rook b) (unionS (queen b) (king b)))))))
      \<and> isDisjoint (white b) (black b)
      \<and> (\<forall>r r' s s'. r \<noteq> r' \<and> byRole b r = Some s \<and> byRole b r' = Some s' \<longrightarrow> isDisjoint s s')
      \<and> (\<forall>sq. has (occupied b) sq \<longrightarrow>
            (\<exists>!c. has (byColor b c) sq) \<and> (\<exists>!r. \<exists>s. byRole b r = Some s \<and> has s sq)))"

text \<open>
  \<open>pieceOn b sq old\<close>: \<open>old\<close> is what stands on \<open>sq\<close>, read from the sets of the board:
  nothing when the square is not occupied, else a piece of the color and the role whose
  sets hold the square (a piece read from the board carries no promoted flag).
\<close>

definition pieceOn :: "board \<Rightarrow> square \<Rightarrow> piece option \<Rightarrow> bool" where
  "pieceOn b sq old =
     (case old of
        None \<Rightarrow> \<not> has (occupied b) sq
      | Some pc \<Rightarrow> has (byColor b (color pc)) sq \<and> (\<exists>s. byRole b (role pc) = Some s \<and> has s sq)
                   \<and> promoted pc = None)"

definition hasR :: "board \<Rightarrow> role \<Rightarrow> square \<Rightarrow> bool" where
  "hasR b r sq = (case byRole b r of None \<Rightarrow> False | Some s \<Rightarrow> has s sq)"

text \<open>The invariant read at one square.\<close>

definition ptinv :: "board \<Rightarrow> square \<Rightarrow> bool" where
  "ptinv b sq =
     ((has (occupied b) sq = (\<exists>c. has (byColor b c) sq))
      \<and> (has (occupied b) sq = (\<exists>r. hasR b r sq))
      \<and> (\<forall>c c'. has (byColor b c) sq \<and> has (byColor b c') sq \<longrightarrow> c = c')
      \<and> (\<forall>r r'. hasR b r sq \<and> hasR b r' sq \<longrightarrow> r = r'))"

fun pairwiseDisjoint :: "squareSet list \<Rightarrow> bool" where
  "pairwiseDisjoint [] = True"
| "pairwiseDisjoint (x # xs) = (list_all (isDisjoint x) xs \<and> pairwiseDisjoint xs)"

subsection \<open>Rook attacks on the empty board\<close>

definition rook_empty_ok :: "square \<Rightarrow> bool" where
  "rook_empty_ok s =
     (rookAttacks s emptyS
        = diff (unionS (fromRank (squareRank s)) (fromFile (squareFile s))) (fromSquare s))"

section \<open>Concrete boards and positions\<close>

text \<open>White king e1, white pawn e2, black king a8, black queen h4.\<close>

definition board_A :: board where
  "board_A =
     \<lparr> occupied = SquareSet 0x80001010 0x01000000,
       white = SquareSet 0x1010 0,
       black = SquareSet 0x80000000 0x01000000,
       pawn = SquareSet 0x1000 0,
       promotedpawn = Some emptyS,
       knight = emptyS, bishop = emptyS, rook = emptyS,
       queen = SquareSet 0x80000000 0,
       king = SquareSet 0x10 0x01000000 \<rparr>"

definition white_rook :: piece where
  "white_rook = \<lparr> role = Rook, color = White, promoted = None \<rparr>"

definition white_king :: piece where
  "white_king = \<lparr> role = King, color = White, promoted = None \<rparr>"

definition white_knight :: piece where
  "white_knight = \<lparr> role = Knight, color = White, promoted = None \<rparr>"

text \<open>A sequence of \<open>play\<close> calls on one position, as the tests run it.\<close>

fun plays :: "position \<Rightarrow> move list \<Rightarrow> error + position" where
  "plays p [] = Inr p"
| "plays p (m # ms) = (case play p m of Inl e \<Rightarrow> Inl e | Inr p' \<Rightarrow> plays p' ms)"

definition isCheckmate_after :: "position \<Rightarrow> move list \<Rightarrow> error + bool" where
  "isCheckmate_after p ms =
     (case plays p ms of Inl e \<Rightarrow> Inl e | Inr p' \<Rightarrow> isCheckmate p' None)"

definition mv :: "square \<Rightarrow> square \<Rightarrow> move" where
  "mv a b = \<lparr> mfrom = a, mto = b, promotion = None \<rparr>"

text \<open>e2e4, e7e5, Qd1-h5, Ng8-f6, Bf1-c4, Nb8-c6, Qh5xf7.\<close>

definition mate_line :: "move list" where
  "mate_line = [mv 12 28, mv 52 36, mv 3 39, mv 62 45, mv 5 26, mv 57 42, mv 39 53]"

text \<open>
  The position of \<open>Makruk.default\<close> after e2e4 and e7e5: White to move, fullmove number 2;
  the promoted-pawn set is still unassigned.
\<close>

definition board_e4e5 :: board where
  "board_e4e5 =
     \<lparr> occupied = SquareSet 0x1000efff 0xffef0010,
       white = SquareSet 0x1000efff 0,
       black = SquareSet 0 0xffef0010,
       pawn = SquareSet 0x1000ef00 0x00ef0010,
       promotedpawn = None,
       knight = SquareSet 0x42 0x42000000,
       bishop = SquareSet 0x24 0x24000000,
       rook = SquareSet 0x81 0x81000000,
       queen = SquareSet 0x8 0x08000000,
       king = SquareSet 0x10 0x10000000 \<rparr>"

definition pos_e4e5 :: position where
  "pos_e4e5 =
     \<lparr> board = board_e4e5, turn = White, remainingChecks = None, halfmoves = 0,
       fullmoves = 2 \<rparr>"

text \<open>White king e1, black king a8, black queen d2; White to move.\<close>

definition board_Q :: board where
  "board_Q =
     \<lparr> occupied = SquareSet 0x810 0x01000000, white = SquareSet 0x10 0,
       black = SquareSet 0x800 0x01000000, pawn = emptyS, promotedpawn = Some emptyS,
       knight = emptyS, bishop = emptyS, rook = emptyS, queen = SquareSet 0x800 0,
       king = SquareSet 0x10 0x01000000 \<rparr>"

definition setup_Q :: setupData where
  "setup_Q =
     \<lparr> s_board = board_Q, s_turn = White, s_remainingChecks = None, s_halfmoves = 0,
       s_fullmoves = 1 \<rparr>"

definition pos_Q :: position where
  "pos_Q =
     \<lparr> board = board_Q, turn = White, remainingChecks = None, halfmoves = 0, fullmoves = 1 \<rparr>"

definition black_queen :: piece where
  "black_queen = \<lparr> role = Queen, color = Black, promoted = None \<rparr>"

text \<open>White king e1, black king a8, black knight e5; White to move.\<close>

definition board_N :: board where
  "board_N =
     \<lparr> occupied = SquareSet 0x10 0x01000010, white = SquareSet 0x10 0,
       black = SquareSet 0 0x01000010, pawn = emptyS, promotedpawn = Some emptyS,
       knight = SquareSet 0 0x10, bishop = emptyS, rook = emptyS, queen = emptyS,
       king = SquareSet 0x10 0x01000000 \<rparr>"

definition pos_N :: position where
  "pos_N =
     \<lparr> board = board_N, turn = White, remainingChecks = None, halfmoves = 0, fullmoves = 1 \<rparr>"

text \<open>The two boards above with Black to move, as setup data.\<close>

definition setup_N_black :: setupData where
  "setup_N_black =
     \<lparr> s_board = board_N, s_turn = Black, s_remainingChecks = None, s_halfmoves = 0,
       s_fullmoves = 1 \<rparr>"

definition setup_Q_black :: setupData where
  "setup_Q_black =
     \<lparr> s_board = board_Q, s_turn = Black, s_remainingChecks = None, s_halfmoves = 0,
       s_fullmoves = 1 \<rparr>"

definition pos_Q_black :: position where
  "pos_Q_black =
     \<lparr> board = board_Q, turn = Black, remainingChecks = None, halfmoves = 0, fullmoves = 1 \<rparr>"

definition black_knight :: piece where
  "black_knight = \<lparr> role = Knight, color = Black, promoted = None \<rparr>"

definition black_king :: piece where
  "black_king = \<lparr> role = King, color = Black, promoted = None \<rparr>"

text \<open>White king e1, black knights d3 and f3, black king a8; White to move.\<close>

definition board_D :: board where
  "board_D =
     \<lparr> occupied = SquareSet 0x280010 0x01000000, white = SquareSet 0x10 0,
       black = SquareSet 0x280000 0x01000000, pawn = emptyS, promotedpawn = Some emptyS,
       knight = SquareSet 0x280000 0, bishop = emptyS, rook = emptyS, queen = emptyS,
       king = SquareSet 0x10 0x01000000 \<rparr>"

definition setup_D :: setupData where
  "setup_D =
     \<lparr> s_board = board_D, s_turn = White, s_remainingChecks = None, s_halfmoves = 0,
       s_fullmoves = 1 \<rparr>"

definition pos_D :: position where
  "pos_D =
     \<lparr> board = board_D, turn = White, remainingChecks = None, halfmoves = 0, fullmoves = 1 \<rparr>"

text \<open>White king e1, white knight b1, black knight d3, black king a8; White to move.\<close>

definition board_S :: board where
  "board_S =
     \<lparr> occupied = SquareSet 0x080012 0x01000000, white = SquareSet 0x12 0,
       black = SquareSet 0x080000 0x01000000, pawn = emptyS, promotedpawn = Some emptyS,
       knight = SquareSet 0x080002 0, bishop = emptyS, rook = emptyS, queen = emptyS,
       king = SquareSet 0x10 0x01000000 \<rparr>"

definition setup_S :: setupData where
  "setup_S =
     \<lparr> s_board = board_S, s_turn = White, s_remainingChecks = None, s_halfmoves = 0,
       s_fullmoves = 1 \<rparr>"

definition pos_S :: position where
  "pos_S =
     \<lparr> board = board_S, turn = White, remainingChecks = None, halfmoves = 0, fullmoves = 1 \<rparr>"

text \<open>White king e1, white rook a1, black king g8; White to move.\<close>

definition board_R :: board where
  "board_R =
     \<lparr> occupied = SquareSet 0x11 0x40000000, white = SquareSet 0x11 0,
       black = SquareSet 0 0x40000000, pawn = emptyS, promotedpawn = Some emptyS,
       knight = emptyS, bishop = emptyS, rook = SquareSet 0x01 0, queen = emptyS,
       king = SquareSet 0x10 0x40000000 \<rparr>"

definition setup_R :: setupData where
  "setup_R =
     \<lparr> s_board = board_R, s_turn = White, s_remainingChecks = None, s_halfmoves = 0,
       s_fullmoves = 1 \<rparr>"

definition pos_R :: position where
  "pos_R =
     \<lparr> board = board_R, turn = White, remainingChecks = None, halfmoves = 0, fullmoves = 1 \<rparr>"

text \<open>
  White king e1, white knight b1, black king a8; White to move, halfmove clock 150,
  fullmove number 76.  The knight moves to c3.
\<close>

definition board_K :: board where
  "board_K =
     \<lparr> occupied = SquareSet 0x12 0x01000000, white = SquareSet 0x12 0,
       black = SquareSet 0 0x01000000, pawn = emptyS, promotedpawn = Some emptyS,
       knight = SquareSet 0x02 0, bishop = emptyS, rook = emptyS, queen = emptyS,
       king = SquareSet 0x10 0x01000000 \<rparr>"

definition setup_K :: setupData where
  "setup_K =
     \<lparr> s_board = board_K, s_turn = White, s_remainingChecks = None, s_halfmoves = 150,
       s_fullmoves = 76 \<rparr>"

definition pos_K :: position where
  "pos_K =
     \<lparr> board = board_K, turn = White, remainingChecks = None, halfmoves = 150,
       fullmoves = 76 \<rparr>"

definition board_K' :: board where
  "board_K' =
     \<lparr> occupied = SquareSet 0x40010 0x01000000, white = SquareSet 0x40010 0,
       black = SquareSet 0 0x01000000, pawn = emptyS, promotedpawn = Some emptyS,
       knight = SquareSet 0x40000 0, bishop = emptyS, rook = emptyS, queen = emptyS,
       king = SquareSet 0x10 0x01000000 \<rparr>"

definition pos_K' :: position where
  "pos_K' =
     \<lparr> board = board_K', turn = Black, remainingChecks = None, halfmoves = 151,
       fullmoves = 76 \<rparr>"

section \<open>Properties of the square set\<close>

subsection \<open>Subtraction across the two halves\<close>

lemma half_sum:
  fixes L B :: int
  shows "of_bool (odd L \<and> odd B) + B div 2 + L div 2 = (L + B) div 2"
  by (cases "odd L"; cases "odd B") (auto elim!: oddE evenE)

lemma uint_and1: "uint ((l::u32) AND b AND 1) = of_bool (odd (uint l) \<and> odd (uint b))"
proof -
  have "uint l AND uint b AND 1 = (of_bool (odd (uint l) \<and> odd (uint b)) :: int)"
    by (rule bit_eqI) (auto simp add: bit_simps bit_0 simp flip: bit_0)
  then show ?thesis by (simp add: uint_and)
qed

lemma uint_shr1: "uint (shr32 b 1) = uint b div 2"
  unfolding shr32_def by (simp add: drop_bit_eq_div uint_div_distrib)

text \<open>The carry bit of \<open>minus64\<close> is the carry out of adding the subtrahend back.\<close>

lemma carry_eq:
  fixes l b :: u32
  shows "minus64_carry l b = word_of_int ((uint l + uint b) div 2 ^ 32)"
proof -
  have s: "uint (l AND b AND 1) + uint (shr32 b 1) + uint (shr32 l 1) = (uint l + uint b) div 2"
    unfolding uint_and1 uint_shr1 using half_sum [of "uint l" "uint b"] by simp
  have lt: "(uint l + uint b) div 2 < 2 ^ 32"
    using uint_lt2p [of l] uint_lt2p [of b] by simp
  have ge: "0 \<le> (uint l + uint b) div 2" by simp
  have "((uint l + uint b) div 2) div 2 ^ 31 = (uint l + uint b) div 2 ^ 32"
    by (simp add: div_mult2_eq [symmetric])
  then show ?thesis
    unfolding minus64_carry_def s using lt ge by (simp add: mod_pos_pos_trivial del: uint_lt2p)
qed

lemma borrow_int:
  fixes A B :: int
  assumes "0 \<le> A" "A < 2^32" "0 \<le> B" "B < 2^32"
  shows "((A - B) mod 2^32 + B) div 2^32 = (if A < B then 1 else 0)"
    and "(A - B) mod 2^32 = A - B + (if A < B then 2^32 else 0)"
proof -
  show 2: "(A - B) mod 2^32 = A - B + (if A < B then 2^32 else 0)"
  proof (cases "A < B")
    case True
    have "(A - B) mod 2^32 = (A - B + 2^32) mod 2^32" by simp
    also have "\<dots> = A - B + 2^32" using assms True by (intro mod_pos_pos_trivial) auto
    finally show ?thesis using True by simp
  next
    case False
    then have "(A - B) mod 2^32 = A - B" using assms by (intro mod_pos_pos_trivial) auto
    then show ?thesis using False by simp
  qed
  show "((A - B) mod 2^32 + B) div 2^32 = (if A < B then 1 else 0)"
    unfolding 2 using assms by (auto simp: div_pos_pos_trivial)
qed

lemma recombine_halves:
  fixes X Y :: int
  assumes "0 \<le> X" "X < 2^32"
  shows "(X + 2^32 * Y) mod 2^64 = X + 2^32 * (Y mod 2^32)"
proof -
  define R where "R = Y mod 2^32"
  have R: "0 \<le> R" "R \<le> 2^32 - 1" unfolding R_def by auto
  have Y: "Y = R + 2^32 * (Y div 2^32)" unfolding R_def by simp
  have "X + 2^32 * Y = (X + 2^32 * R) + 2^64 * (Y div 2^32)"
    by (subst Y) (simp add: algebra_simps)
  then have "(X + 2^32 * Y) mod 2^64 = (X + 2^32 * R) mod 2^64"
    by (simp only: mod_mult_self2)
  moreover have "0 \<le> X + 2^32 * R" using assms R by simp
  moreover have "X + 2^32 * R < 2^64"
  proof -
    have "2^32 * R \<le> 2^32 * (2^32 - 1)" using R by (intro mult_left_mono) auto
    then show ?thesis using assms by simp
  qed
  ultimately show ?thesis unfolding R_def by (simp add: mod_pos_pos_trivial)
qed

text \<open>
  Claim C7.  Reading a square set \<open>(lo, hi)\<close> as the unsigned 64-bit integer
  \<open>lo + 2^32 * hi\<close>, \<open>a.minus64(b)\<close> is \<open>(a - b) mod 2^64\<close>: the subtraction is exact
  two's-complement subtraction on 64 bits, the borrow of the low half included.
\<close>

theorem minus64_is_subtraction_mod_2_64:
  "val64 (minus64 a b) = (val64 a - val64 b) mod 2 ^ 64"
proof -
  define A B C D where "A = uint (lo a)" and "B = uint (lo b)" and "C = uint (hi a)" and "D = uint (hi b)"
  define c :: int where "c = (if A < B then 1 else 0)"
  define l :: u32 where "l = word_of_int (A - B)"
  have bounds: "0 \<le> A" "A < 2^32" "0 \<le> B" "B < 2^32"
    unfolding A_def B_def using uint_lt2p [where 'a=32] by auto
  have L: "uint l = A - B + c * 2^32"
    unfolding l_def uint_word_of_int c_def using borrow_int(2) [OF bounds] by simp
  have cw: "minus64_carry l (lo b) = word_of_int c"
    unfolding carry_eq l_def uint_word_of_int B_def [symmetric] c_def
    using borrow_int(1) [OF bounds] by simp
  have m: "minus64 a b = SquareSet l (hi a - (hi b + word_of_int c))"
    unfolding minus64_def Let_def using cw [unfolded l_def A_def B_def]
    by (simp add: l_def A_def B_def)
  have h: "uint (hi a - (hi b + word_of_int c)) = (C - (D + c)) mod 2^32"
    unfolding C_def D_def by (simp add: uint_word_ariths uint_word_of_int mod_simps)
  have v: "val64 (minus64 a b) = (A - B + c * 2^32) + 2^32 * ((C - (D + c)) mod 2^32)"
    unfolding m val64_def SquareSet_def by (simp add: L h)
  have lo_rng: "0 \<le> A - B + c * 2^32" "A - B + c * 2^32 < 2^32"
    using bounds unfolding c_def by auto
  have tgt: "val64 a - val64 b = (A - B + c * 2^32) + 2^32 * (C - (D + c))"
    unfolding val64_def A_def B_def C_def D_def by (simp add: algebra_simps)
  show ?thesis unfolding tgt v by (rule recombine_halves [OF lo_rng, symmetric])
qed

subsection \<open>Evaluation\<close>

text \<open>
  Concrete inputs are evaluated by rewriting with the definitions.  The weak congruence
  rules make the rewriting follow the evaluation order of the source: a bound value is
  computed before it is used, and only the branch taken is entered.
\<close>

lemmas ss_defs = shl32_def shr32_def sar32_def SquareSet_def fromSquare_def emptyS_def fullS_def
  backranks_def lightSquares_def darkSquares_def complementS_def xorS_def unionS_def intersect_def
  diff_def isEmpty_def nonEmpty_def intersects_def isDisjoint_def shr64_def shl64_def fromRank_def
  fromFile_def bswap64_def rbit64_def bswap32_def rbit32_def equals_def has_def withSq_def
  without_def minus64_def minus64_carry_def squareRank_def squareFile_def mask_eq_exp_minus_1
  Let_def

lemmas rook_defs = rookAttacks_def fileAttacks_def rankAttacks_def hyperbola_def FILE_RANGE_def
  RANK_RANGE_def

lemma upto0: "[0..n] = (if 0 \<le> n then 0 # [1..n] else [])"
  by (simp add: upto_rec1)

lemma upto1: "[1..numeral n] = 1 # [2..numeral n]"
  by (simp add: upto_rec1)

lemma fold_weak_cong: "xs = ys \<Longrightarrow> s = t \<Longrightarrow> fold f xs s = fold f ys t"
  by simp

lemma rev_upt_32:
  "rev [0..<32] = [31, 30, 29, 28, 27, 26, 25, 24, 23, 22, 21, 20, 19, 18, 17, 16, 15, 14, 13, 12,
     11, 10, 9, 8, 7, 6, 5, 4, 3, 2, 1, 0::nat]"
  by code_simp

lemma clz32_unroll:
  "clz32 w = (if bit w 31 then 0 else if bit w 30 then 1 else if bit w 29 then 2 else if bit w 28 then 3
    else if bit w 27 then 4 else if bit w 26 then 5 else if bit w 25 then 6 else if bit w 24 then 7
    else if bit w 23 then 8 else if bit w 22 then 9 else if bit w 21 then 10 else if bit w 20 then 11
    else if bit w 19 then 12 else if bit w 18 then 13 else if bit w 17 then 14 else if bit w 16 then 15
    else if bit w 15 then 16 else if bit w 14 then 17 else if bit w 13 then 18 else if bit w 12 then 19
    else if bit w 11 then 20 else if bit w 10 then 21 else if bit w 9 then 22 else if bit w 8 then 23
    else if bit w 7 then 24 else if bit w 6 then 25 else if bit w 5 then 26 else if bit w 4 then 27
    else if bit w 3 then 28 else if bit w 2 then 29 else if bit w 1 then 30 else if bit w 0 then 31
    else 32)"
  unfolding clz32_def rev_upt_32 by simp

lemma iter32_numeral:
  "iter32 (numeral n) w =
     (if w = 0 then []
      else let idx = 31 - clz32 (w AND - w) in idx # iter32 (pred_numeral n) (w XOR shl32 1 idx))"
  by (simp add: numeral_eq_Suc)

lemma iter32_one:
  "iter32 1 w = (if w = 0 then [] else [31 - clz32 (w AND - w)])"
  by (simp add: Let_def)

lemmas set_defs = clz32_unroll bit_iff_odd_drop_bit lastS_def firstS_def singleSquare_def
  moreThanOne_def sizeS_def popcnt32_def iterate_def iter32_numeral iter32_one fold_simps

lemmas attack_defs = computeRange_def kingAttacks_def queenAttacks_def knightAttacks_def
  bishopAttacks_def pawnAttacks_def attacks_def ray_def between_def attacksTo_def opposite_def

lemmas board_defs = byColor_def setColor_def byRole_def setRole_def getColor_def getRole_def
  get_def board_take_def board_set_def kingOf_def ROLES_def COLORS_def clone_def
  boardEquals_def

lemmas pos_defs = setupUnchecked_def kingAttackers_def isVariantEnd_def ctx_def ctxOr_def
  validate_def pseudoByRole_def dests_def hasInsufficientMaterial_def toSetup_def isInsufficientMaterial_def
  hasDests_def isLegal_def isCheck_def isCheckmate_def decChecks_def play_def fromSetup_def

lemmas eval_defs = pos_defs board_defs attack_defs set_defs rook_defs ss_defs

lemmas eval_congs = let_weak_cong option.case_cong_weak sum.case_cong_weak prod.case_cong_weak
  color.case_cong_weak role.case_cong_weak list.case_cong_weak fold_weak_cong

subsection \<open>Membership\<close>

lemma eff_lt: "eff sq < 64"
  unfolding eff_def by (auto simp: nat_less_iff)

lemma eff_id: "0 \<le> sq \<Longrightarrow> sq < 64 \<Longrightarrow> eff sq = nat sq"
proof -
  assume a: "0 \<le> sq" "sq < 64"
  show ?thesis
  proof (cases "sq \<ge> 32")
    case True
    then have "(sq - 32) mod 32 = sq - 32" using a by (intro mod_pos_pos_trivial) auto
    then show ?thesis using True unfolding eff_def by simp
  next
    case False
    then have "sq mod 32 = sq" using a by (intro mod_pos_pos_trivial) auto
    then show ?thesis using False unfolding eff_def by simp
  qed
qed

lemma eff_int: "i < 64 \<Longrightarrow> eff (int i) = i"
  using eff_id [of "int i"] by simp

lemma and_shl1: "((w::u32) AND shl32 1 n \<noteq> 0) = bit w (nat (n mod 32))"
  unfolding shl32_def by (simp add: bit_iff_and_push_bit_not_eq_0)

lemma has_sqbit: "has s sq = sqbit s (eff sq)"
  unfolding has_def sqbit_def eff_def and_shl1 by (auto simp: nat_less_iff)

lemma bit_shl1: "bit (shl32 1 n :: u32) k = (k = nat (n mod 32))"
proof -
  have "nat (n mod 32) < 32" by (simp add: nat_less_iff)
  then show ?thesis unfolding shl32_def by (auto simp: bit_push_bit_iff bit_1_iff bit_exp_iff)
qed

lemma sqbit_SquareSet: "sqbit (SquareSet l h) i = (if i \<ge> 32 then bit h (i - 32) else bit l i)"
  by (simp add: sqbit_def SquareSet_def)

lemma sqbit_unionS: "sqbit (unionS a b) i = (sqbit a i \<or> sqbit b i)"
  by (simp add: unionS_def SquareSet_def sqbit_def bit_or_iff)

lemma sqbit_intersect: "sqbit (intersect a b) i = (sqbit a i \<and> sqbit b i)"
  by (simp add: intersect_def SquareSet_def sqbit_def bit_and_iff)

lemma sqbit_diff: "i < 64 \<Longrightarrow> sqbit (diff a b) i = (sqbit a i \<and> \<not> sqbit b i)"
  by (auto simp add: diff_def SquareSet_def sqbit_def bit_and_iff bit_not_iff)

lemma sqbit_emptyS: "sqbit emptyS i = False"
  by (simp add: emptyS_def sqbit_SquareSet)

lemma sqbit_withSq: "sqbit (withSq s x) i = (sqbit s i \<or> i = eff x)"
  unfolding withSq_def eff_def sqbit_def
  by (auto simp: SquareSet_def bit_or_iff bit_shl1 nat_less_iff)

lemma sqbit_without: "i < 64 \<Longrightarrow> sqbit (without s x) i = (sqbit s i \<and> i \<noteq> eff x)"
  unfolding without_def eff_def sqbit_def
  by (auto simp: SquareSet_def bit_and_iff bit_not_iff bit_shl1 nat_less_iff)

lemma ss_eq_iff: "(s = t) = (\<forall>i<64. sqbit s i = sqbit t i)"
proof
  assume r: "\<forall>i<64. sqbit s i = sqbit t i"
  have "lo s = lo t"
  proof (rule bit_word_eqI)
    fix n assume "n < LENGTH(32)"
    then show "bit (lo s) n = bit (lo t) n" using r [rule_format, of n] by (simp add: sqbit_def)
  qed
  moreover have "hi s = hi t"
  proof (rule bit_word_eqI)
    fix n assume "n < LENGTH(32)"
    then show "bit (hi s) n = bit (hi t) n" using r [rule_format, of "n + 32"] by (simp add: sqbit_def)
  qed
  ultimately show "s = t" by simp
qed simp

lemma has_unionS: "has (unionS a b) sq = (has a sq \<or> has b sq)"
  by (simp add: has_sqbit sqbit_unionS)
lemma has_intersect: "has (intersect a b) sq = (has a sq \<and> has b sq)"
  by (simp add: has_sqbit sqbit_intersect)
lemma has_diff: "has (diff a b) sq = (has a sq \<and> \<not> has b sq)"
  by (simp add: has_sqbit sqbit_diff eff_lt)
lemma has_emptyS: "has emptyS sq = False"
  by (simp add: has_sqbit sqbit_emptyS)
lemma has_withSq: "has (withSq s x) sq = (has s sq \<or> eff sq = eff x)"
  by (simp add: has_sqbit sqbit_withSq)
lemma has_without: "has (without s x) sq = (has s sq \<and> eff sq \<noteq> eff x)"
  by (simp add: has_sqbit sqbit_without eff_lt)

lemma ss_eq_has: "(s = t) = (\<forall>sq. has s sq = has t sq)"
proof
  assume r: "\<forall>sq. has s sq = has t sq"
  show "s = t" unfolding ss_eq_iff
  proof (intro allI impI)
    fix i :: nat assume "i < 64"
    then show "sqbit s i = sqbit t i" using r [rule_format, of "int i"] by (simp add: has_sqbit eff_int)
  qed
qed simp

lemma isEmpty_has: "isEmpty s = (\<forall>sq. \<not> has s sq)"
proof -
  have "isEmpty s = (s = emptyS)" by (auto simp: isEmpty_def emptyS_def SquareSet_def)
  then show ?thesis by (simp add: ss_eq_has has_emptyS)
qed

lemma equals_eq: "equals s t = (s = t)"
  by (auto simp: equals_def)

subsection \<open>Rook attacks\<close>

lemma rook_rank1: "list_all rook_empty_ok [0..7]"
  by (simp add: rook_empty_ok_def rook_defs ss_defs upto_rec_numeral upto0 upto1
      cong: let_weak_cong)

lemma rook_rank2: "list_all rook_empty_ok [8..15]"
  by (simp add: rook_empty_ok_def rook_defs ss_defs upto_rec_numeral cong: let_weak_cong)

lemma rook_rank3: "list_all rook_empty_ok [16..23]"
  by (simp add: rook_empty_ok_def rook_defs ss_defs upto_rec_numeral cong: let_weak_cong)

lemma rook_rank4: "list_all rook_empty_ok [24..31]"
  by (simp add: rook_empty_ok_def rook_defs ss_defs upto_rec_numeral cong: let_weak_cong)

lemma rook_rank5: "list_all rook_empty_ok [32..39]"
  by (simp add: rook_empty_ok_def rook_defs ss_defs upto_rec_numeral cong: let_weak_cong)

lemma rook_rank6: "list_all rook_empty_ok [40..47]"
  by (simp add: rook_empty_ok_def rook_defs ss_defs upto_rec_numeral cong: let_weak_cong)

lemma rook_rank7: "list_all rook_empty_ok [48..55]"
  by (simp add: rook_empty_ok_def rook_defs ss_defs upto_rec_numeral cong: let_weak_cong)

lemma rook_rank8: "list_all rook_empty_ok [56..63]"
  by (simp add: rook_empty_ok_def rook_defs ss_defs upto_rec_numeral cong: let_weak_cong)

lemma rook_empty_all:
  assumes "0 \<le> s" "s < 64"
  shows "rook_empty_ok s"
proof -
  have "s \<in> set [0..7] \<or> s \<in> set [8..15] \<or> s \<in> set [16..23] \<or> s \<in> set [24..31]
      \<or> s \<in> set [32..39] \<or> s \<in> set [40..47] \<or> s \<in> set [48..55] \<or> s \<in> set [56..63]"
    unfolding set_upto atLeastAtMost_iff using assms by linarith
  then show ?thesis
    using rook_rank1 rook_rank2 rook_rank3 rook_rank4 rook_rank5 rook_rank6 rook_rank7 rook_rank8
    unfolding list_all_iff by blast
qed

lemma rook_d6:
  "rookAttacks 43 (SquareSet 0x2826f5b9 0x3f7f2880) = SquareSet 0x8000000 0x83708"
  by (simp add: rook_defs ss_defs cong: let_weak_cong)

text \<open>
  Claim C8.  On the empty board a rook on a square \<open>s\<close> of the board attacks the rank of
  \<open>s\<close> and the file of \<open>s\<close> without \<open>s\<close> itself; and a rook on square 43 against the
  occupancy \<open>(0x2826f5b9, 0x3f7f2880)\<close> attacks exactly \<open>(0x8000000, 0x83708)\<close>.
\<close>

theorem rookAttacks_empty_board_and_d6:
  "(\<forall>s. 0 \<le> s \<and> s < 64 \<longrightarrow>
      rookAttacks s emptyS
        = diff (unionS (fromRank (squareRank s)) (fromFile (squareFile s))) (fromSquare s))
   \<and> rookAttacks 43 (SquareSet 0x2826f5b9 0x3f7f2880) = SquareSet 0x8000000 0x83708"
  using rook_empty_all rook_d6 unfolding rook_empty_ok_def by blast

theorem rookAttacks_empty_board_witness:
  "(0::int) \<le> 27 \<and> (27::int) < 64
   \<and> rookAttacks 27 emptyS = diff (unionS (fromRank 3) (fromFile 3)) (fromSquare 27)
   \<and> rookAttacks 27 emptyS = SquareSet 0xf7080808 0x08080808"
proof -
  have "rookAttacks 27 emptyS
      = diff (unionS (fromRank (squareRank 27)) (fromFile (squareFile 27))) (fromSquare 27)"
    using rookAttacks_empty_board_and_d6 by simp
  moreover have "diff (unionS (fromRank 3) (fromFile 3)) (fromSquare 27) = SquareSet 0xf7080808 0x08080808"
    by (simp add: ss_defs)
  ultimately show ?thesis by (simp add: squareRank_def squareFile_def)
qed

section \<open>Properties of the board\<close>

lemma ex_color: "(\<exists>c. P c) = (P White \<or> P Black)"
  by (metis color.exhaust)

lemma ex_role: "(\<exists>r. P r) = (P Pawn \<or> P Promotedpawn \<or> P Knight \<or> P Bishop \<or> P Rook \<or> P Queen \<or> P King)"
  by (metis role.exhaust)

lemma all_role: "(\<forall>r. P r) = (P Pawn \<and> P Promotedpawn \<and> P Knight \<and> P Bishop \<and> P Rook \<and> P Queen \<and> P King)"
  by (metis role.exhaust)

lemma isDisjoint_has: "isDisjoint s t = (\<forall>sq. \<not> (has s sq \<and> has t sq))"
  by (simp add: isDisjoint_def isEmpty_has has_intersect)

lemma board_invariant_pointwise:
  "board_invariant b = ((\<forall>r. byRole b r \<noteq> None) \<and> (\<forall>sq. ptinv b sq))"
proof
  assume inv: "board_invariant b"
  then obtain pp where pp: "promotedpawn b = Some pp" unfolding board_invariant_def by blast
  have roles: "\<And>r. byRole b r \<noteq> None" using inv unfolding board_invariant_def by blast
  have occ_c: "\<And>sq. has (occupied b) sq = (has (white b) sq \<or> has (black b) sq)"
    using inv unfolding board_invariant_def by (metis has_unionS)
  have occ_r: "\<And>sq. has (occupied b) sq = (\<exists>r. hasR b r sq)"
  proof -
    fix sq
    have "occupied b = unionS (pawn b) (unionS pp (unionS (knight b) (unionS (bishop b)
                 (unionS (rook b) (unionS (queen b) (king b))))))"
      using inv pp unfolding board_invariant_def by auto
    then have "has (occupied b) sq = (has (pawn b) sq \<or> has pp sq \<or> has (knight b) sq \<or> has (bishop b) sq
        \<or> has (rook b) sq \<or> has (queen b) sq \<or> has (king b) sq)"
      by (simp add: has_unionS)
    then show "has (occupied b) sq = (\<exists>r. hasR b r sq)"
      unfolding ex_role hasR_def byRole_def using pp by simp
  qed
  have dis_c: "\<And>sq. \<not> (has (white b) sq \<and> has (black b) sq)"
    using inv unfolding board_invariant_def isDisjoint_has by blast
  have dis_r: "\<And>sq r r'. hasR b r sq \<Longrightarrow> hasR b r' sq \<Longrightarrow> r = r'"
  proof (rule ccontr)
    fix sq r r' assume h: "hasR b r sq" "hasR b r' sq" "r \<noteq> r'"
    from h obtain s s' where "byRole b r = Some s" "has s sq" "byRole b r' = Some s'" "has s' sq"
      unfolding hasR_def by (auto split: option.splits)
    moreover have "\<forall>r r' s s'. r \<noteq> r' \<and> byRole b r = Some s \<and> byRole b r' = Some s' \<longrightarrow> isDisjoint s s'"
      using inv unfolding board_invariant_def by blast
    ultimately show False using h(3) unfolding isDisjoint_has by blast
  qed
  have "\<And>sq. ptinv b sq"
    unfolding ptinv_def using occ_c occ_r dis_c dis_r
    by (auto simp: ex_color byColor_def split: color.splits)
  then show "(\<forall>r. byRole b r \<noteq> None) \<and> (\<forall>sq. ptinv b sq)" using roles by blast
next
  assume a: "(\<forall>r. byRole b r \<noteq> None) \<and> (\<forall>sq. ptinv b sq)"
  then have "byRole b Promotedpawn \<noteq> None" by blast
  then obtain pp where pp: "promotedpawn b = Some pp" unfolding byRole_def by auto
  have pt: "\<And>sq. ptinv b sq" using a by blast
  have "\<And>sq. has (occupied b) sq = (\<exists>c. has (byColor b c) sq)"
    using pt unfolding ptinv_def by blast
  then have oc: "\<And>sq. has (occupied b) sq = (has (white b) sq \<or> has (black b) sq)"
    unfolding ex_color by (simp add: byColor_def)
  have 1: "occupied b = unionS (white b) (black b)"
    unfolding ss_eq_has has_unionS using oc by blast
  have "\<And>sq. has (occupied b) sq = (\<exists>r. hasR b r sq)"
    using pt unfolding ptinv_def by blast
  then have orl: "\<And>sq. has (occupied b) sq = (has (pawn b) sq \<or> has pp sq \<or> has (knight b) sq
        \<or> has (bishop b) sq \<or> has (rook b) sq \<or> has (queen b) sq \<or> has (king b) sq)"
    unfolding ex_role by (simp add: hasR_def byRole_def pp)
  have 2: "occupied b = unionS (pawn b) (unionS pp (unionS (knight b) (unionS (bishop b)
                 (unionS (rook b) (unionS (queen b) (king b))))))"
    unfolding ss_eq_has has_unionS using orl by blast
  have 3: "isDisjoint (white b) (black b)"
    unfolding isDisjoint_has
  proof (intro allI notI)
    fix sq assume "has (white b) sq \<and> has (black b) sq"
    then have "has (byColor b White) sq \<and> has (byColor b Black) sq" by (simp add: byColor_def)
    then have "White = Black" using pt [of sq] unfolding ptinv_def by blast
    then show False by simp
  qed
  have 4: "\<forall>r r' s s'. r \<noteq> r' \<and> byRole b r = Some s \<and> byRole b r' = Some s' \<longrightarrow> isDisjoint s s'"
  proof (intro allI impI)
    fix r r' s s' assume h: "r \<noteq> r' \<and> byRole b r = Some s \<and> byRole b r' = Some s'"
    show "isDisjoint s s'" unfolding isDisjoint_has
    proof (intro allI notI)
      fix sq assume "has s sq \<and> has s' sq"
      then have "hasR b r sq \<and> hasR b r' sq" using h by (simp add: hasR_def)
      then have "r = r'" using pt [of sq] unfolding ptinv_def by blast
      then show False using h by simp
    qed
  qed
  have 5: "\<forall>sq. has (occupied b) sq \<longrightarrow>
            (\<exists>!c. has (byColor b c) sq) \<and> (\<exists>!r. \<exists>s. byRole b r = Some s \<and> has s sq)"
  proof (intro allI impI conjI)
    fix sq assume o: "has (occupied b) sq"
    show "\<exists>!c. has (byColor b c) sq" using o pt [of sq] unfolding ptinv_def by blast
    have hr: "\<And>r. (\<exists>s. byRole b r = Some s \<and> has s sq) = hasR b r sq"
      by (auto simp: hasR_def split: option.splits)
    show "\<exists>!r. \<exists>s. byRole b r = Some s \<and> has s sq"
      unfolding hr using o pt [of sq] unfolding ptinv_def by blast
  qed
  show "board_invariant b" unfolding board_invariant_def using a 1 2 3 4 5 pp by blast
qed

lemma byColor_setColor: "byColor (setColor b c s) c' = (if c' = c then s else byColor b c')"
  by (cases c; cases c') (simp_all add: byColor_def setColor_def)
lemma byRole_setRole: "byRole (setRole b r s) r' = (if r' = r then Some s else byRole b r')"
  by (cases r; cases r') (simp_all add: byRole_def setRole_def)
lemma byRole_setColor: "byRole (setColor b c s) r = byRole b r"
  by (cases c; cases r) (simp_all add: byRole_def setColor_def)
lemma byColor_setRole: "byColor (setRole b r s) c = byColor b c"
  by (cases r; cases c) (simp_all add: byColor_def setRole_def)
lemma occupied_setColor: "occupied (setColor b c s) = occupied b"
  by (cases c) (simp_all add: setColor_def)
lemma occupied_setRole: "occupied (setRole b r s) = occupied b"
  by (cases r) (simp_all add: setRole_def)
lemma byColor_occupied_update: "byColor (b\<lparr>occupied := x\<rparr>) c = byColor b c"
  by (cases c) (simp_all add: byColor_def)
lemma byRole_occupied_update: "byRole (b\<lparr>occupied := x\<rparr>) r = byRole b r"
  by (cases r) (simp_all add: byRole_def)

lemmas frame_simps = byColor_setColor byRole_setRole byRole_setColor byColor_setRole
  occupied_setColor occupied_setRole byColor_occupied_update byRole_occupied_update

lemma has_eff: "eff q = eff sq \<Longrightarrow> has s q = has s sq"
  by (simp add: has_sqbit)

lemma getRole_loop_find:
  "\<forall>r. byRole b r \<noteq> None \<Longrightarrow> getRole_loop b sq rs = Inr (find (\<lambda>r. hasR b r sq) rs)"
  by (induction rs) (auto simp: hasR_def split: option.splits)

lemma getColor_Some: "getColor b sq = Some c \<Longrightarrow> has (byColor b c) sq"
  by (auto simp: getColor_def byColor_def split: if_splits)

lemma getColor_None: "getColor b sq = None \<Longrightarrow> \<not> has (byColor b c) sq"
  by (cases c) (auto simp: getColor_def byColor_def split: if_splits)

lemma ptinv_same:
  assumes "has (occupied b') q = has (occupied b) q"
    and "\<And>c. has (byColor b' c) q = has (byColor b c) q"
    and "\<And>r. hasR b' r q = hasR b r q"
    and "ptinv b q"
  shows "ptinv b' q"
proof -
  have "ptinv b' q = ptinv b q" unfolding ptinv_def by (simp only: assms(1-3))
  then show ?thesis using assms(4) by simp
qed

lemma ptinv_empty:
  "\<not> has (occupied b') q \<Longrightarrow> (\<And>c. \<not> has (byColor b' c) q) \<Longrightarrow> (\<And>r. \<not> hasR b' r q) \<Longrightarrow> ptinv b' q"
  by (simp add: ptinv_def)

lemma ptinv_single:
  "has (occupied b') q \<Longrightarrow> (\<And>c. has (byColor b' c) q = (c = c0)) \<Longrightarrow> (\<And>r. hasR b' r q = (r = r0))
   \<Longrightarrow> ptinv b' q"
  by (simp add: ptinv_def)

lemma get_invariant:
  assumes inv: "board_invariant b"
  shows "\<exists>old. get b sq = Inr old \<and> pieceOn b sq old"
proof -
  have roles: "\<forall>r. byRole b r \<noteq> None" and pt: "ptinv b sq"
    using inv unfolding board_invariant_pointwise by auto
  show ?thesis
  proof (cases "getColor b sq")
    case None
    then have "\<not> has (occupied b) sq" using pt getColor_None [of b sq] unfolding ptinv_def by blast
    then show ?thesis using None by (simp add: get_def pieceOn_def)
  next
    case (Some c)
    then have hc: "has (byColor b c) sq" by (rule getColor_Some)
    then have "has (occupied b) sq" using pt unfolding ptinv_def by blast
    then obtain r where r: "hasR b r sq" using pt unfolding ptinv_def by blast
    have "r \<in> set ROLES" by (cases r) (simp_all add: ROLES_def)
    then have "find (\<lambda>r. hasR b r sq) ROLES \<noteq> None" using r by (auto simp: find_None_iff)
    then obtain r' where f: "find (\<lambda>r. hasR b r sq) ROLES = Some r'" by blast
    then have "hasR b r' sq" by (auto simp: find_Some_iff)
    then obtain s where s: "byRole b r' = Some s" "has s sq" by (auto simp: hasR_def split: option.splits)
    have "get b sq = Inr (Some \<lparr> role = r', color = c, promoted = None \<rparr>)"
      using Some f by (simp add: get_def getRole_def getRole_loop_find [OF roles])
    then show ?thesis using hc s by (simp add: pieceOn_def)
  qed
qed

lemma take_invariant:
  assumes inv: "board_invariant b"
  shows "\<exists>old b'. board_take b sq = Inr (old, b') \<and> board_invariant b' \<and> pieceOn b sq old
           \<and> \<not> has (occupied b') sq"
proof -
  have roles: "\<forall>r. byRole b r \<noteq> None" and pt: "\<And>q. ptinv b q"
    using inv unfolding board_invariant_pointwise by auto
  obtain old where g: "get b sq = Inr old" and po: "pieceOn b sq old"
    using get_invariant [OF inv] by blast
  show ?thesis
  proof (cases old)
    case None
    then show ?thesis using g po inv by (simp add: board_take_def pieceOn_def)
  next
    case (Some pc)
    then obtain s where hc: "has (byColor b (color pc)) sq" and s: "byRole b (role pc) = Some s" "has s sq"
      using po by (auto simp: pieceOn_def)
    define b' where "b' = setRole (setColor (b\<lparr>occupied := without (occupied b) sq\<rparr>) (color pc)
        (without (byColor b (color pc)) sq)) (role pc) (without s sq)"
    have t: "board_take b sq = Inr (Some pc, b')"
      using g Some s by (simp add: board_take_def Let_def frame_simps b'_def)
    have roles': "\<forall>r. byRole b' r \<noteq> None" using roles by (simp add: b'_def frame_simps)
    have hr: "hasR b (role pc) sq" using s by (simp add: hasR_def)
    have hasR': "\<And>r q. hasR b' r q = (if r = role pc then hasR b r q \<and> eff q \<noteq> eff sq else hasR b r q)"
      using s by (auto simp: hasR_def b'_def frame_simps has_without)
    have hasC': "\<And>c q. has (byColor b' c) q = (if c = color pc then has (byColor b c) q \<and> eff q \<noteq> eff sq else has (byColor b c) q)"
      by (auto simp: b'_def frame_simps has_without)
    have occ': "\<And>q. has (occupied b') q = (has (occupied b) q \<and> eff q \<noteq> eff sq)"
      by (simp add: b'_def frame_simps has_without)
    have pt': "\<And>q. ptinv b' q"
    proof -
      fix q
      show "ptinv b' q"
      proof (cases "eff q = eff sq")
        case True
        have e: "\<And>x. has x q = has x sq" using True by (rule has_eff)
        have er: "\<And>r. hasR b r q = hasR b r sq" by (simp add: hasR_def e split: option.splits)
        have oc: "\<And>c. has (byColor b c) sq \<Longrightarrow> c = color pc" using pt [of sq] hc unfolding ptinv_def by blast
        have orl: "\<And>r. hasR b r sq \<Longrightarrow> r = role pc" using pt [of sq] hr unfolding ptinv_def by blast
        show ?thesis
        proof (rule ptinv_empty)
          show "\<not> has (occupied b') q" using True by (simp add: occ')
          show "\<And>c. \<not> has (byColor b' c) q" using True oc by (auto simp: hasC' e)
          show "\<And>r. \<not> hasR b' r q" using True orl by (auto simp: hasR' er)
        qed
      next
        case False
        show ?thesis
        proof (rule ptinv_same [OF _ _ _ pt [of q]])
          show "has (occupied b') q = has (occupied b) q" using False by (simp add: occ')
          show "\<And>c. has (byColor b' c) q = has (byColor b c) q" using False by (simp add: hasC')
          show "\<And>r. hasR b' r q = hasR b r q" using False by (simp add: hasR')
        qed
      qed
    qed
    have "board_invariant b'" unfolding board_invariant_pointwise using roles' pt' by blast
    moreover have "\<not> has (occupied b') sq" by (simp add: occ')
    ultimately show ?thesis using t po Some by blast
  qed
qed

lemma set_invariant:
  assumes inv: "board_invariant b"
  shows "\<exists>old b'. board_set b sq pc = Inr (old, b') \<and> board_invariant b' \<and> pieceOn b sq old
           \<and> pieceOn b' sq (Some (pc\<lparr>promoted := None\<rparr>))"
proof -
  obtain old b0 where t: "board_take b sq = Inr (old, b0)" and inv0: "board_invariant b0"
      and po: "pieceOn b sq old" and emp: "\<not> has (occupied b0) sq"
    using take_invariant [OF inv] by blast
  have roles: "\<forall>r. byRole b0 r \<noteq> None" and pt: "\<And>q. ptinv b0 q"
    using inv0 unfolding board_invariant_pointwise by auto
  obtain s where s: "byRole b0 (role pc) = Some s" using roles by blast
  define b' where "b' = setRole (setColor (b0\<lparr>occupied := withSq (occupied b0) sq\<rparr>) (color pc)
        (withSq (byColor b0 (color pc)) sq)) (role pc) (withSq s sq)"
  have st: "board_set b sq pc = Inr (old, b')"
    using t s by (simp add: board_set_def Let_def frame_simps b'_def)
  have roles': "\<forall>r. byRole b' r \<noteq> None" using roles by (simp add: b'_def frame_simps)
  have hasR': "\<And>r q. hasR b' r q = (if r = role pc then hasR b0 r q \<or> eff q = eff sq else hasR b0 r q)"
    using s by (auto simp: hasR_def b'_def frame_simps has_withSq)
  have hasC': "\<And>c q. has (byColor b' c) q = (if c = color pc then has (byColor b0 c) q \<or> eff q = eff sq else has (byColor b0 c) q)"
    by (auto simp: b'_def frame_simps has_withSq)
  have occ': "\<And>q. has (occupied b') q = (has (occupied b0) q \<or> eff q = eff sq)"
    by (simp add: b'_def frame_simps has_withSq)
  have noc: "\<And>c. \<not> has (byColor b0 c) sq" and nor: "\<And>r. \<not> hasR b0 r sq"
    using pt [of sq] emp unfolding ptinv_def by blast+
  have pt': "\<And>q. ptinv b' q"
  proof -
    fix q
    show "ptinv b' q"
    proof (cases "eff q = eff sq")
      case True
      have e: "\<And>x. has x q = has x sq" using True by (rule has_eff)
      have er: "\<And>r. hasR b0 r q = hasR b0 r sq" by (simp add: hasR_def e split: option.splits)
      show ?thesis
      proof (rule ptinv_single [where ?c0.0 = "color pc" and ?r0.0 = "role pc"])
        show "has (occupied b') q" using True by (simp add: occ')
        show "\<And>c. has (byColor b' c) q = (c = color pc)" using True noc by (simp add: hasC' e)
        show "\<And>r. hasR b' r q = (r = role pc)" using True nor by (simp add: hasR' er)
      qed
    next
      case False
      show ?thesis
      proof (rule ptinv_same [OF _ _ _ pt [of q]])
        show "has (occupied b') q = has (occupied b0) q" using False by (simp add: occ')
        show "\<And>c. has (byColor b' c) q = has (byColor b0 c) q" using False by (simp add: hasC')
        show "\<And>r. hasR b' r q = hasR b0 r q" using False by (simp add: hasR')
      qed
    qed
  qed
  have "board_invariant b'" unfolding board_invariant_pointwise using roles' pt' by blast
  moreover have "pieceOn b' sq (Some (pc\<lparr>promoted := None\<rparr>))"
    using s by (simp add: pieceOn_def hasC' b'_def frame_simps has_withSq)
  ultimately show ?thesis using st po by blast
qed

lemma board_invariantI:
  assumes pp: "promotedpawn b = Some pp"
    and oc: "occupied b = unionS (white b) (black b)"
    and orl: "occupied b = unionS (pawn b) (unionS pp (unionS (knight b) (unionS (bishop b)
                 (unionS (rook b) (unionS (queen b) (king b))))))"
    and dc: "isDisjoint (white b) (black b)"
    and dr: "pairwiseDisjoint [pawn b, pp, knight b, bishop b, rook b, queen b, king b]"
  shows "board_invariant b"
proof -
  have roles: "\<forall>r. byRole b r \<noteq> None" unfolding all_role by (simp add: byRole_def pp)
  have pt: "ptinv b sq" for sq
  proof -
    have 1: "has (occupied b) sq = (\<exists>c. has (byColor b c) sq)"
      unfolding ex_color by (subst oc) (simp add: has_unionS byColor_def)
    have 2: "has (occupied b) sq = (\<exists>r. hasR b r sq)"
      unfolding ex_role by (subst orl) (simp add: has_unionS hasR_def byRole_def pp)
    have 3: "has (byColor b c) sq \<and> has (byColor b c') sq \<longrightarrow> c = c'" for c c'
      using dc unfolding isDisjoint_has by (cases c; cases c') (auto simp: byColor_def)
    have 4: "hasR b r sq \<and> hasR b r' sq \<longrightarrow> r = r'" for r r'
      using dr by (cases r; cases r') (auto simp: hasR_def byRole_def pp isDisjoint_has)
    show ?thesis unfolding ptinv_def using 1 2 3 4 by blast
  qed
  show ?thesis unfolding board_invariant_pointwise using roles pt by blast
qed

lemma board_A_invariant: "board_invariant board_A"
  by (rule board_invariantI [where pp = emptyS]) (simp_all add: board_A_def ss_defs)

text \<open>
  Claim C9.  On a board that satisfies the board invariant, for every square and every
  piece, \<open>take(square)\<close> and \<open>set(square, piece)\<close> return normally, leave a board that
  satisfies the invariant, and return what stood on the square before (nothing when the
  square was empty).  After \<open>take\<close> the square is empty; after \<open>set\<close> it holds the piece.
\<close>

theorem take_and_set_keep_board_invariant:
  assumes "board_invariant b"
  shows "(\<exists>old b'. board_take b sq = Inr (old, b') \<and> board_invariant b' \<and> pieceOn b sq old
             \<and> \<not> has (occupied b') sq)
       \<and> (\<exists>old b'. board_set b sq pc = Inr (old, b') \<and> board_invariant b' \<and> pieceOn b sq old
             \<and> pieceOn b' sq (Some (pc\<lparr>promoted := None\<rparr>)))"
  using take_invariant [OF assms] set_invariant [OF assms] by blast

theorem take_and_set_keep_board_invariant_witness:
  "board_invariant board_A
   \<and> (\<exists>old b'. board_take board_A 12 = Inr (old, b') \<and> board_invariant b' \<and> pieceOn board_A 12 old
          \<and> \<not> has (occupied b') 12)
   \<and> (\<exists>old b'. board_set board_A 31 white_rook = Inr (old, b') \<and> board_invariant b'
          \<and> pieceOn board_A 31 old \<and> pieceOn b' 31 (Some (white_rook\<lparr>promoted := None\<rparr>)))"
  using board_A_invariant
    take_and_set_keep_board_invariant [OF board_A_invariant, of 12 white_rook]
    take_and_set_keep_board_invariant [OF board_A_invariant, of 31 white_rook]
  by blast

section \<open>Properties of the position\<close>

lemma clone_id: "clone b = b"
  by (simp add: clone_def)

subsection \<open>Check detection\<close>

lemma pos_Q_valid: "fromSetup setup_Q = Inr pos_Q"
  by (simp add: setup_Q_def pos_Q_def board_Q_def eval_defs del: fold.simps cong: eval_congs)

lemma pos_Q_queen:
  "kingOf (board pos_Q) (turn pos_Q) = Some 4
   \<and> get (board pos_Q) 11 = Inr (Some black_queen)
   \<and> has (attacks black_queen 11 (occupied (board pos_Q))) 4"
  by (simp add: pos_Q_def board_Q_def black_queen_def eval_defs del: fold.simps cong: eval_congs)

lemma pos_Q_isCheck: "\<not> isCheck pos_Q"
  by (simp add: pos_Q_def board_Q_def eval_defs del: fold.simps cong: eval_congs)

lemma pos_Q_ctx:
  "ctx pos_Q = Inr \<lparr> ctx_king = Some 4, blockers = emptyS, checkers = emptyS,
     variantEnd = False, mustCapture = False \<rparr>"
  by (simp add: pos_Q_def board_Q_def eval_defs del: fold.simps cong: eval_congs)

lemma pos_N_valid: "validate pos_N = Inr ()"
  by (simp add: pos_N_def board_N_def eval_defs del: fold.simps cong: eval_congs)

lemma pos_N_isCheck: "isCheck pos_N"
  by (simp add: pos_N_def board_N_def eval_defs del: fold.simps cong: eval_congs)

lemma pos_N_pieces:
  "iterate (byColor (board pos_N) Black) = [36, 56]
   \<and> get (board pos_N) 36 = Inr (Some black_knight)
   \<and> get (board pos_N) 56 = Inr (Some black_king)
   \<and> \<not> has (attacks black_knight 36 (occupied (board pos_N))) 4
   \<and> \<not> has (attacks black_king 56 (occupied (board pos_N))) 4"
  by (simp add: pos_N_def board_N_def black_knight_def black_king_def eval_defs
      del: fold.simps cong: eval_congs)

text \<open>
  Claim C1 at two positions that \<open>fromSetup\<close> accepts.  With a black queen on d2 next to
  the white king on e1, the queen attacks e1 by \<open>attacks\<close>, yet \<open>isCheck\<close> is false and
  the checkers of \<open>ctx\<close> are empty.  With a black knight on e5 on the open file of the
  king, \<open>isCheck\<close> is true although neither black piece attacks e1 by \<open>attacks\<close>.
\<close>

theorem isCheck_differs_from_attacks:
  "fromSetup setup_Q = Inr pos_Q
   \<and> kingOf (board pos_Q) (turn pos_Q) = Some 4
   \<and> get (board pos_Q) 11 = Inr (Some black_queen)
   \<and> has (attacks black_queen 11 (occupied (board pos_Q))) 4
   \<and> \<not> isCheck pos_Q
   \<and> ctx pos_Q = Inr \<lparr> ctx_king = Some 4, blockers = emptyS, checkers = emptyS,
         variantEnd = False, mustCapture = False \<rparr>
   \<and> validate pos_N = Inr ()
   \<and> isCheck pos_N
   \<and> iterate (byColor (board pos_N) Black) = [36, 56]
   \<and> get (board pos_N) 36 = Inr (Some black_knight)
   \<and> get (board pos_N) 56 = Inr (Some black_king)
   \<and> \<not> has (attacks black_knight 36 (occupied (board pos_N))) 4
   \<and> \<not> has (attacks black_king 56 (occupied (board pos_N))) 4"
  using pos_Q_valid pos_Q_queen pos_Q_isCheck pos_Q_ctx pos_N_valid pos_N_isCheck pos_N_pieces
  by simp

subsection \<open>Destinations in check\<close>

lemma between_raises: "between a b = Inl TypeError"
  by (simp add: between_def Let_def)

lemma pos_D_valid: "fromSetup setup_D = Inr pos_D"
  by (simp add: setup_D_def pos_D_def board_D_def eval_defs del: fold.simps cong: eval_congs)

lemma pos_D_snipers:
  "intersect (rookAttacks 4 emptyS) (byColor (board pos_D) Black) = emptyS"
  by (simp add: pos_D_def board_D_def eval_defs del: fold.simps cong: eval_congs)

lemma pos_D_ctx:
  "ctx pos_D = Inr \<lparr> ctx_king = Some 4, blockers = emptyS, checkers = SquareSet 0x280000 0,
     variantEnd = False, mustCapture = False \<rparr>"
  by (simp add: pos_D_def board_D_def eval_defs del: fold.simps cong: eval_congs)

lemma pos_D_checkers: "iterate (SquareSet 0x280000 0) = [19, 21]"
  by (simp add: eval_defs del: fold.simps cong: eval_congs)

lemma pos_D_knights:
  "get (board pos_D) 19 = Inr (Some black_knight)
   \<and> get (board pos_D) 21 = Inr (Some black_knight)
   \<and> has (attacks black_knight 19 (occupied (board pos_D))) 4
   \<and> has (attacks black_knight 21 (occupied (board pos_D))) 4"
  by (simp add: pos_D_def board_D_def black_knight_def eval_defs del: fold.simps cong: eval_congs)

lemma pos_D_king:
  "get (board pos_D) 4 = Inr (Some white_king)
   \<and> has (diff (pseudoByRole pos_D 4 white_king) (byColor (board pos_D) White)) 12"
  by (simp add: pos_D_def board_D_def white_king_def eval_defs del: fold.simps cong: eval_congs)

lemma pos_D_e2_safe:
  "kingAttackers pos_D 12 Black (without (occupied (board pos_D)) 4) = emptyS"
  by (simp add: pos_D_def board_D_def eval_defs del: fold.simps cong: eval_congs)

lemma pos_D_dests: "dests pos_D 4 None = Inr emptyS"
  by (simp add: pos_D_def board_D_def eval_defs del: fold.simps cong: eval_congs)

lemma pos_D_checkmate: "isCheckmate pos_D None = Inr True"
  by (simp add: pos_D_def board_D_def eval_defs del: fold.simps cong: eval_congs)

lemma pos_S_valid: "fromSetup setup_S = Inr pos_S"
  by (simp add: setup_S_def pos_S_def board_S_def eval_defs del: fold.simps cong: eval_congs)

lemma pos_S_ctx:
  "ctx pos_S = Inr \<lparr> ctx_king = Some 4, blockers = emptyS, checkers = SquareSet 0x080000 0,
     variantEnd = False, mustCapture = False \<rparr>"
  by (simp add: pos_S_def board_S_def eval_defs del: fold.simps cong: eval_congs)

lemma pos_S_knight:
  "singleSquare (SquareSet 0x080000 0) = Some 19
   \<and> get (board pos_S) 1 = Inr (Some white_knight)"
  by (simp add: pos_S_def board_S_def white_knight_def eval_defs del: fold.simps cong: eval_congs)

lemma pos_S_dests: "dests pos_S 1 None = Inl TypeError"
  by (simp add: pos_S_def board_S_def eval_defs del: fold.simps cong: eval_congs)

text \<open>
  Claim C2 at two positions that \<open>fromSetup\<close> accepts.  In the first the white king on e1
  is checked by the black knights on d3 and f3, and no black piece stands on the king's
  rank or file, so \<open>ctx\<close> returns.  The square e2 is a pseudo-legal destination of the
  king that no black piece attacks on the board without the king, yet \<open>dests\<close> returns
  the empty set for the king, and \<open>isCheckmate\<close> is true.  In the second the only
  checker is the knight on d3: \<open>dests\<close> of the white knight on b1 raises \<open>TypeError\<close>,
  since the single-checker branch calls \<open>between\<close>.
\<close>

theorem dests_of_king_empty_in_double_check:
  "fromSetup setup_D = Inr pos_D
   \<and> intersect (rookAttacks 4 emptyS) (byColor (board pos_D) Black) = emptyS
   \<and> ctx pos_D = Inr \<lparr> ctx_king = Some 4, blockers = emptyS, checkers = SquareSet 0x280000 0,
         variantEnd = False, mustCapture = False \<rparr>
   \<and> iterate (SquareSet 0x280000 0) = [19, 21]
   \<and> get (board pos_D) 19 = Inr (Some black_knight)
   \<and> get (board pos_D) 21 = Inr (Some black_knight)
   \<and> has (attacks black_knight 19 (occupied (board pos_D))) 4
   \<and> has (attacks black_knight 21 (occupied (board pos_D))) 4
   \<and> get (board pos_D) 4 = Inr (Some white_king)
   \<and> has (diff (pseudoByRole pos_D 4 white_king) (byColor (board pos_D) White)) 12
   \<and> kingAttackers pos_D 12 Black (without (occupied (board pos_D)) 4) = emptyS
   \<and> dests pos_D 4 None = Inr emptyS
   \<and> isCheckmate pos_D None = Inr True
   \<and> fromSetup setup_S = Inr pos_S
   \<and> ctx pos_S = Inr \<lparr> ctx_king = Some 4, blockers = emptyS, checkers = SquareSet 0x080000 0,
         variantEnd = False, mustCapture = False \<rparr>
   \<and> singleSquare (SquareSet 0x080000 0) = Some 19
   \<and> get (board pos_S) 1 = Inr (Some white_knight)
   \<and> between 19 4 = Inl TypeError
   \<and> dests pos_S 1 None = Inl TypeError"
  using pos_D_valid pos_D_snipers pos_D_ctx pos_D_checkers pos_D_knights pos_D_king
    pos_D_e2_safe pos_D_dests pos_D_checkmate pos_S_valid pos_S_ctx pos_S_knight
    between_raises [of 19 4] pos_S_dests
  by simp

subsection \<open>The four-move mate\<close>

lemma default_two_moves: "plays Makruk_default [mv 12 28, mv 52 36] = Inr pos_e4e5"
  by (simp add: Makruk_default_def Board_default_def pos_e4e5_def board_e4e5_def mv_def
      eval_defs del: fold.simps cong: eval_congs)

lemma default_third_move:
  "plays Makruk_default [mv 12 28, mv 52 36, mv 3 39] = Inl TypeError"
  by (simp add: Makruk_default_def Board_default_def mv_def eval_defs
      del: fold.simps cong: eval_congs)

lemma default_mate_line: "isCheckmate_after Makruk_default mate_line = Inl TypeError"
  by (simp add: isCheckmate_after_def mate_line_def Makruk_default_def Board_default_def mv_def
      eval_defs del: fold.simps cong: eval_congs)

lemma default_knight_move:
  "has (diff (pseudoByRole Makruk_default 6 white_knight) (byColor (board Makruk_default) White)) 21
   \<and> get (board Makruk_default) 6 = Inl TypeError
   \<and> play Makruk_default (mv 6 21) = Inl TypeError"
  by (simp add: Makruk_default_def Board_default_def white_knight_def mv_def eval_defs
      del: fold.simps cong: eval_congs)

lemma e4e5_knight_move:
  "has (diff (pseudoByRole pos_e4e5 1 white_knight) (byColor (board pos_e4e5) White)) 18
   \<and> get (board pos_e4e5) 1 = Inl TypeError
   \<and> play pos_e4e5 (mv 1 18) = Inl TypeError"
  by (simp add: pos_e4e5_def board_e4e5_def white_knight_def mv_def eval_defs
      del: fold.simps cong: eval_congs)

text \<open>
  Claim C3.  \<open>reset\<close> never assigns the promoted-pawn set, which \<open>getRole\<close> probes right
  after the pawn set: on the board of \<open>Makruk.default\<close> reading any piece that is not a
  pawn raises \<open>TypeError\<close>.  The two pawn moves of the line go through; the third \<open>play\<close>
  call of the line raises \<open>TypeError\<close>, so the line gives no position and \<open>isCheckmate\<close>
  no value.  The same happens on moves of the engine's own knight table to an empty
  square: g1-f3 as the first move, and b1-c3 in place of the third move of the line.
\<close>

theorem four_move_mate_raises_TypeError:
  "plays Makruk_default [mv 12 28, mv 52 36] = Inr pos_e4e5
   \<and> plays Makruk_default [mv 12 28, mv 52 36, mv 3 39] = Inl TypeError
   \<and> isCheckmate_after Makruk_default mate_line = Inl TypeError
   \<and> has (diff (pseudoByRole Makruk_default 6 white_knight)
            (byColor (board Makruk_default) White)) 21
   \<and> get (board Makruk_default) 6 = Inl TypeError
   \<and> play Makruk_default (mv 6 21) = Inl TypeError
   \<and> has (diff (pseudoByRole pos_e4e5 1 white_knight) (byColor (board pos_e4e5) White)) 18
   \<and> get (board pos_e4e5) 1 = Inl TypeError
   \<and> play pos_e4e5 (mv 1 18) = Inl TypeError"
  using default_two_moves default_third_move default_mate_line default_knight_move
    e4e5_knight_move
  by simp

subsection \<open>Insufficient material\<close>

lemma pos_R_valid: "fromSetup setup_R = Inr pos_R"
  by (simp add: setup_R_def pos_R_def board_R_def eval_defs del: fold.simps cong: eval_congs)

lemma pos_R_rook: "get (board pos_R) 0 = Inr (Some white_rook)"
  by (simp add: pos_R_def board_R_def white_rook_def eval_defs del: fold.simps cong: eval_congs)

lemma pos_R_insufficient: "hasInsufficientMaterial pos_R White \<and> isInsufficientMaterial pos_R"
  by (simp add: pos_R_def board_R_def eval_defs del: fold.simps cong: eval_congs)

text \<open>
  Claim C4 at a position that \<open>fromSetup\<close> accepts: White has king and rook, Black the
  bare king.  \<open>hasInsufficientMaterial\<close> is true for White and \<open>isInsufficientMaterial\<close>
  is true, with a rook on the board.
\<close>

theorem rook_counts_as_insufficient_material:
  "fromSetup setup_R = Inr pos_R
   \<and> get (board pos_R) 0 = Inr (Some white_rook)
   \<and> hasInsufficientMaterial pos_R White
   \<and> isInsufficientMaterial pos_R"
  using pos_R_valid pos_R_rook pos_R_insufficient by simp

theorem rook_counts_as_insufficient_material_witness:
  "isInsufficientMaterial pos_R"
  using rook_counts_as_insufficient_material by simp

subsection \<open>Snapshots\<close>

text \<open>
  Claim C10.  The snapshot that \<open>toSetup\<close> returns carries the halfmove clock
  \<open>min(halfmoves, 150)\<close> and the fullmove number \<open>min(max(fullmoves, 1), 9999)\<close>; board
  (a clone), turn and remaining-checks counters are those of the position.
\<close>

theorem toSetup_clamps_counters:
  "s_halfmoves (toSetup p) = min (halfmoves p) 150
   \<and> s_fullmoves (toSetup p) = min (max (fullmoves p) 1) 9999
   \<and> s_board (toSetup p) = board p
   \<and> s_turn (toSetup p) = turn p
   \<and> s_remainingChecks (toSetup p) = remainingChecks p"
  by (simp add: toSetup_def clone_id)

lemma validate_board_turn:
  assumes "board p = board q" "turn p = turn q"
  shows "validate p = validate q"
  unfolding validate_def kingAttackers_def assms ..

lemma fromSetup_toSetup:
  "fromSetup (toSetup p) =
     (case validate p of
        Inl e \<Rightarrow> Inl e
      | Inr u \<Rightarrow> Inr (p\<lparr>remainingChecks := None, halfmoves := min (halfmoves p) 150,
                        fullmoves := min (max (fullmoves p) 1) 9999\<rparr>))"
proof -
  have v: "validate (setupUnchecked (toSetup p)) = validate p"
    by (rule validate_board_turn) (simp_all add: setupUnchecked_def toSetup_def clone_id)
  show ?thesis
    unfolding fromSetup_def Let_def v
    by (cases "validate p") (simp_all add: setupUnchecked_def toSetup_def clone_id)
qed

lemma rolesEqual_refl: "\<forall>r. byRole b r \<noteq> None \<Longrightarrow> rolesEqual b b rs = Inr True"
  by (induction rs) (auto simp: equals_def split: option.splits)

lemma boardEquals_refl: "promotedpawn b \<noteq> None \<Longrightarrow> boardEquals b b = Inr True"
proof -
  assume "promotedpawn b \<noteq> None"
  then have "\<forall>r. byRole b r \<noteq> None" unfolding all_role by (simp add: byRole_def)
  then show ?thesis by (simp add: boardEquals_def equals_def rolesEqual_refl)
qed

lemma pos_K_valid: "fromSetup setup_K = Inr pos_K"
  by (simp add: setup_K_def pos_K_def board_K_def eval_defs del: fold.simps cong: eval_congs)

lemma pos_K_legal: "isLegal pos_K (mv 1 18) None = Inr True"
  by (simp add: pos_K_def board_K_def mv_def eval_defs del: fold.simps cong: eval_congs)

lemma pos_K_play: "play pos_K (mv 1 18) = Inr pos_K'"
  by (simp add: pos_K_def board_K_def pos_K'_def board_K'_def mv_def eval_defs
      del: fold.simps cong: eval_congs)

lemma pos_K'_validate: "validate pos_K' = Inr ()"
  by (simp add: pos_K'_def board_K'_def eval_defs del: fold.simps cong: eval_congs)

text \<open>
  Claim C5, as stated, fails: \<open>fromSetup\<close> accepts a position with halfmove clock 150;
  the knight move b1-c3 is legal there and \<open>play\<close> leaves the clock at 151; the snapshot
  of that position validates into a position whose clock is 150.
\<close>

theorem roundtrip_counterexample:
  "fromSetup setup_K = Inr pos_K
   \<and> isLegal pos_K (mv 1 18) None = Inr True
   \<and> play pos_K (mv 1 18) = Inr pos_K'
   \<and> fromSetup (toSetup pos_K') = Inr (pos_K'\<lparr>halfmoves := 150\<rparr>)
   \<and> halfmoves pos_K' = 151"
proof -
  have "fromSetup (toSetup pos_K') = Inr (pos_K'\<lparr>halfmoves := 150\<rparr>)"
    unfolding fromSetup_toSetup pos_K'_validate by (simp add: pos_K'_def)
  moreover have "halfmoves pos_K' = 151" by (simp add: pos_K'_def)
  ultimately show ?thesis using pos_K_valid pos_K_legal pos_K_play by simp
qed

text \<open>
  Claim C5, amended.  For every position, validating its snapshot succeeds exactly when
  the position itself passes \<open>validate\<close>; and when it succeeds, the new position has the
  same board (equal by \<open>boardEquals\<close> when the promoted-pawn set is assigned) and turn,
  the halfmove clock \<open>min(halfmoves, 150)\<close> and the fullmove number
  \<open>min(max(fullmoves, 1), 9999)\<close>: the counters are those of the original exactly when
  they lie within these bounds.
\<close>

theorem roundtrip_up_to_clamping:
  "((\<exists>q. fromSetup (toSetup p) = Inr q) \<longleftrightarrow> validate p = Inr ())
   \<and> (\<forall>q. fromSetup (toSetup p) = Inr q \<longrightarrow>
         board q = board p
         \<and> (promotedpawn (board p) \<noteq> None \<longrightarrow> boardEquals (board q) (board p) = Inr True)
         \<and> turn q = turn p
         \<and> halfmoves q = min (halfmoves p) 150
         \<and> fullmoves q = min (max (fullmoves p) 1) 9999
         \<and> ((halfmoves q = halfmoves p \<and> fullmoves q = fullmoves p)
              \<longleftrightarrow> (halfmoves p \<le> 150 \<and> 1 \<le> fullmoves p \<and> fullmoves p \<le> 9999)))"
  unfolding fromSetup_toSetup
  by (cases "validate p") (auto simp: boardEquals_refl)

theorem roundtrip_up_to_clamping_witness:
  "fromSetup (toSetup pos_K) = Inr pos_K
   \<and> board pos_K = board pos_K
   \<and> boardEquals (board pos_K) (board pos_K) = Inr True
   \<and> halfmoves pos_K = min (halfmoves pos_K) 150
   \<and> fullmoves pos_K = min (max (fullmoves pos_K) 1) 9999"
proof -
  have v: "validate pos_K = Inr ()"
    by (simp add: pos_K_def board_K_def eval_defs del: fold.simps cong: eval_congs)
  have f: "fromSetup (toSetup pos_K) = Inr pos_K"
    unfolding fromSetup_toSetup v by (simp add: pos_K_def)
  have pp: "promotedpawn (board pos_K) \<noteq> None" by (simp add: pos_K_def board_K_def)
  have "\<forall>q. fromSetup (toSetup pos_K) = Inr q \<longrightarrow>
         board q = board pos_K
         \<and> (promotedpawn (board pos_K) \<noteq> None \<longrightarrow> boardEquals (board q) (board pos_K) = Inr True)
         \<and> turn q = turn pos_K
         \<and> halfmoves q = min (halfmoves pos_K) 150
         \<and> fullmoves q = min (max (fullmoves pos_K) 1) 9999
         \<and> ((halfmoves q = halfmoves pos_K \<and> fullmoves q = fullmoves pos_K)
              \<longleftrightarrow> (halfmoves pos_K \<le> 150 \<and> 1 \<le> fullmoves pos_K \<and> fullmoves pos_K \<le> 9999))"
    by (rule conjunct2 [OF roundtrip_up_to_clamping [of pos_K]])
  then show ?thesis using f pp by blast
qed

subsection \<open>Validation of setup data\<close>

lemma setup_N_black_rejected: "fromSetup setup_N_black = Inl OppositeCheck"
  by (simp add: setup_N_black_def board_N_def eval_defs del: fold.simps cong: eval_congs)

lemma board_N_conditions:
  "occupied board_N \<noteq> emptyS
   \<and> sizeS (king board_N) = 2
   \<and> kingOf board_N White = Some 4
   \<and> kingOf board_N Black = Some 56
   \<and> intersect backranks (pawn board_N) = emptyS"
  by (simp add: board_N_def eval_defs del: fold.simps cong: eval_congs)

lemma board_N_pieces:
  "iterate (byColor board_N Black) = [36, 56]
   \<and> get board_N 36 = Inr (Some black_knight)
   \<and> get board_N 56 = Inr (Some black_king)
   \<and> \<not> has (attacks black_knight 36 (occupied board_N)) 4
   \<and> \<not> has (attacks black_king 56 (occupied board_N)) 4"
  by (simp add: board_N_def black_knight_def black_king_def eval_defs
      del: fold.simps cong: eval_congs)

lemma setup_Q_black_accepted: "fromSetup setup_Q_black = Inr pos_Q_black"
  by (simp add: setup_Q_black_def pos_Q_black_def board_Q_def eval_defs
      del: fold.simps cong: eval_congs)

lemma board_Q_queen:
  "kingOf board_Q White = Some 4
   \<and> get board_Q 11 = Inr (Some black_queen)
   \<and> has (attacks black_queen 11 (occupied board_Q)) 4"
  by (simp add: board_Q_def black_queen_def eval_defs del: fold.simps cong: eval_congs)

text \<open>
  Claim C6 at two setups with Black to move, so that White is the side not to move.
  On the first board (white king e1, black king a8, black knight e5) the board is not
  empty, each color has one king, no pawn stands on a back rank and neither black piece
  attacks the white king by \<open>attacks\<close>; yet \<open>fromSetup\<close> returns the error
  \<open>OppositeCheck\<close>.  On the second board (white king e1, black king a8, black queen d2)
  the queen attacks the white king by \<open>attacks\<close>; yet \<open>fromSetup\<close> returns a position.
\<close>

theorem fromSetup_opposite_check_differs_from_attacks:
  "fromSetup setup_N_black = Inl OppositeCheck
   \<and> s_board setup_N_black = board_N
   \<and> s_turn setup_N_black = Black
   \<and> occupied board_N \<noteq> emptyS
   \<and> sizeS (king board_N) = 2
   \<and> kingOf board_N White = Some 4
   \<and> kingOf board_N Black = Some 56
   \<and> intersect backranks (pawn board_N) = emptyS
   \<and> iterate (byColor board_N Black) = [36, 56]
   \<and> get board_N 36 = Inr (Some black_knight)
   \<and> get board_N 56 = Inr (Some black_king)
   \<and> \<not> has (attacks black_knight 36 (occupied board_N)) 4
   \<and> \<not> has (attacks black_king 56 (occupied board_N)) 4
   \<and> fromSetup setup_Q_black = Inr pos_Q_black
   \<and> s_board setup_Q_black = board_Q
   \<and> s_turn setup_Q_black = Black
   \<and> kingOf board_Q White = Some 4
   \<and> get board_Q 11 = Inr (Some black_queen)
   \<and> has (attacks black_queen 11 (occupied board_Q)) 4"
  using setup_N_black_rejected board_N_conditions board_N_pieces setup_Q_black_accepted
    board_Q_queen
  by (simp add: setup_N_black_def setup_Q_black_def)

end
